theory Spec2Isabelle
  imports Complex_Main "HOL-Library.Word" "HOL-Library.Monad_Syntax"
begin

unbundle bit_operations_syntax

section \<open>Byte buffers and the DataView writers\<close>

text \<open>
  An ArrayBuffer is a list of bytes; a DataView or Uint8Array over it is the same list.
  The writers of the platform raise RangeError when a write does not fit the buffer:
  that is the result \<open>None\<close> here.
\<close>

type_synonym byte = "8 word"
type_synonym bytes = "byte list"

definition setUint8 :: "bytes \<Rightarrow> nat \<Rightarrow> nat \<Rightarrow> bytes option" where
  "setUint8 view byteOffset v =
     (if byteOffset + 1 \<le> length view then Some (view[byteOffset := of_nat v]) else None)"

text \<open>The bytes of a 16-bit and of a 32-bit value, least significant byte first.\<close>

definition bytes16 :: "16 word \<Rightarrow> bytes" where
  "bytes16 w = [ucast w, ucast (drop_bit 8 w)]"

definition bytes32 :: "32 word \<Rightarrow> bytes" where
  "bytes32 w = [ucast w, ucast (drop_bit 8 w), ucast (drop_bit 16 w), ucast (drop_bit 24 w)]"

text \<open>\<open>target.set(source, offset)\<close> of a typed array: the copy, or RangeError.\<close>

definition set_at :: "bytes \<Rightarrow> bytes \<Rightarrow> nat \<Rightarrow> bytes option" where
  "set_at target source offset =
     (if offset + length source \<le> length target
      then Some (take offset target @ source @ drop (offset + length source) target)
      else None)"

text \<open>
  \<open>view.setUint16(byteOffset, value, littleEndian)\<close> and \<open>setUint32\<close>: the value is
  taken modulo \<open>2 ^ 16\<close> (\<open>2 ^ 32\<close>) and stored in the byte order asked for.
\<close>

definition setUint16 :: "bytes \<Rightarrow> nat \<Rightarrow> nat \<Rightarrow> bool \<Rightarrow> bytes option" where
  "setUint16 view byteOffset v littleEndian =
     set_at view (if littleEndian then bytes16 (of_nat v) else rev (bytes16 (of_nat v))) byteOffset"

definition setUint32 :: "bytes \<Rightarrow> nat \<Rightarrow> nat \<Rightarrow> bool \<Rightarrow> bytes option" where
  "setUint32 view byteOffset v littleEndian =
     set_at view (if littleEndian then bytes32 (of_nat v) else rev (bytes32 (of_nat v))) byteOffset"

section \<open>AudioPlayer: the container builder\<close>

text \<open>
  \<open>writeString(view, offset, string)\<close> stores \<open>string.charCodeAt(i)\<close> at
  \<open>offset + i\<close> for every index of the string, from the first: the recursion runs over
  the characters still to write and the offset of the next one.
\<close>

fun writeString :: "bytes \<Rightarrow> nat \<Rightarrow> string \<Rightarrow> bytes option" where
  "writeString view offset [] = Some view"
| "writeString view offset (c # cs) =
     do { v \<leftarrow> setUint8 view offset (of_char c); writeString v (Suc offset) cs }"

definition createWavBuffer :: "bytes \<Rightarrow> bytes option" where
  "createWavBuffer pcmData =
     (let sampleRate = 44100;
          numChannels = 1;
          bytesPerSample = 2;
          blockAlign = numChannels * bytesPerSample;
          byteRate = sampleRate * blockAlign;
          dataSize = length pcmData;
          buffer = replicate (44 + dataSize) 0
      in do {
        view \<leftarrow> writeString buffer 0 ''RIFF'';
        view \<leftarrow> setUint32 view 4 (36 + dataSize) True;
        view \<leftarrow> writeString view 8 ''WAVE'';
        view \<leftarrow> writeString view 12 ''fmt '';
        view \<leftarrow> setUint32 view 16 16 True;
        view \<leftarrow> setUint16 view 20 1 True;
        view \<leftarrow> setUint16 view 22 numChannels True;
        view \<leftarrow> setUint32 view 24 sampleRate True;
        view \<leftarrow> setUint32 view 28 byteRate True;
        view \<leftarrow> setUint16 view 32 blockAlign True;
        view \<leftarrow> setUint16 view 34 (bytesPerSample * 8) True;
        view \<leftarrow> writeString view 36 ''data'';
        view \<leftarrow> setUint32 view 40 dataSize True;
        set_at view pcmData 44
      })"

text \<open>Reading a field back: the number that a run of bytes spells, least significant first.\<close>

fun le_nat :: "bytes \<Rightarrow> nat" where
  "le_nat [] = 0"
| "le_nat (b # bs) = unat b + 256 * le_nat bs"

definition subarray :: "nat \<Rightarrow> nat \<Rightarrow> 'a list \<Rightarrow> 'a list" where
  "subarray i j xs = take (j - i) (drop i xs)"

definition ascii :: "string \<Rightarrow> bytes" where
  "ascii s = map (\<lambda>c. of_nat (of_char c)) s"

section \<open>Numbers of the audio path\<close>

text \<open>
  A sample is a JavaScript number: a finite value, one of the two infinities, or NaN (the two
  zeros are one value here: no operation below tells them apart in its result). The elements
  of a Float32Array are such numbers.

  JavaScript computes in IEEE double precision: the result of an operation on finite operands
  is the exact result, rounded. The rounding function is the field \<open>rnd\<close> of the arithmetic
  \<open>A\<close> that the audio functions take; the rounding to single precision of a store into a
  Float32Array is \<open>fround\<close>. Overflow of a finite result to an infinity is outside the model.
\<close>

datatype number = Fin real | PInf | NInf | NaN

record arith =
  rnd :: "real \<Rightarrow> real"
  fround :: "real \<Rightarrow> real"

definition exact :: arith where
  "exact = \<lparr>rnd = (\<lambda>x. x), fround = (\<lambda>x. x)\<rparr>"

text \<open>
  What the theorems ask of the rounding: it is monotone and it leaves the integers
  up to \<open>2 ^ 53\<close> as they are. IEEE rounding to nearest is such a function.
\<close>

definition ieee_rounding :: "(real \<Rightarrow> real) \<Rightarrow> bool" where
  "ieee_rounding r \<longleftrightarrow>
     (\<forall>x y. x \<le> y \<longrightarrow> r x \<le> r y) \<and> (\<forall>k::int. \<bar>k\<bar> \<le> 2 ^ 53 \<longrightarrow> r (of_int k) = of_int k)"

text \<open>The operators \<open><\<close>, \<open>*\<close> (by a finite factor) and \<open>+\<close>, and \<open>Math.min\<close>, \<open>Math.max\<close>.\<close>

fun js_less :: "number \<Rightarrow> number \<Rightarrow> bool" where
  "js_less NaN y = False"
| "js_less x NaN = False"
| "js_less (Fin a) (Fin b) = (a < b)"
| "js_less x NInf = False"
| "js_less NInf y = True"
| "js_less PInf y = False"
| "js_less x PInf = True"

fun js_mul :: "arith \<Rightarrow> number \<Rightarrow> real \<Rightarrow> number" where
  "js_mul A (Fin a) w = Fin (rnd A (a * w))"
| "js_mul A NaN w = NaN"
| "js_mul A PInf w = (if 0 < w then PInf else if w < 0 then NInf else NaN)"
| "js_mul A NInf w = (if 0 < w then NInf else if w < 0 then PInf else NaN)"

fun js_add :: "arith \<Rightarrow> number \<Rightarrow> number \<Rightarrow> number" where
  "js_add A (Fin a) (Fin b) = Fin (rnd A (a + b))"
| "js_add A NaN y = NaN"
| "js_add A x NaN = NaN"
| "js_add A PInf NInf = NaN"
| "js_add A NInf PInf = NaN"
| "js_add A PInf y = PInf"
| "js_add A x PInf = PInf"
| "js_add A NInf y = NInf"
| "js_add A x NInf = NInf"

definition Math_min :: "number \<Rightarrow> number \<Rightarrow> number" where
  "Math_min x y = (if x = NaN \<or> y = NaN then NaN else if js_less y x then y else x)"

definition Math_max :: "number \<Rightarrow> number \<Rightarrow> number" where
  "Math_max x y = (if x = NaN \<or> y = NaN then NaN else if js_less x y then y else x)"

text \<open>\<open>Math.round\<close> of a finite number: the nearest integer, a tie going up.\<close>

definition Math_round :: "real \<Rightarrow> int" where
  "Math_round x = \<lfloor>x + 1 / 2\<rfloor>"

text \<open>
  A store into an Int16Array: NaN and the infinities become 0, a finite number is cut
  towards zero and taken modulo \<open>2 ^ 16\<close> (the word; \<open>sint\<close> reads it back).
  A store into a Float32Array rounds a finite number to single precision.
\<close>

definition trunc :: "real \<Rightarrow> int" where
  "trunc x = (if 0 \<le> x then \<lfloor>x\<rfloor> else \<lceil>x\<rceil>)"

fun toInt16 :: "number \<Rightarrow> 16 word" where
  "toInt16 (Fin x) = word_of_int (trunc x)"
| "toInt16 x = 0"

fun toFloat32 :: "arith \<Rightarrow> number \<Rightarrow> number" where
  "toFloat32 A (Fin x) = Fin (fround A x)"
| "toFloat32 A x = x"

text \<open>
  \<open>inputBuffer[k]\<close> at an integer index: the element, or \<open>undefined\<close> off the array,
  which the arithmetic and the store into a Float32Array turn into NaN.
\<close>

definition get :: "number list \<Rightarrow> int \<Rightarrow> number" where
  "get xs k = (if 0 \<le> k \<and> k < int (length xs) then xs ! nat k else NaN)"

section \<open>Audio processing utilities\<close>

text \<open>
  \<open>resampleBuffer\<close>: the loop over the output indices. The rates are finite numbers.
  \<open>new Float32Array(newLength)\<close> raises RangeError for a negative or infinite length
  (the result \<open>None\<close>) and takes NaN for the length 0. With \<open>toSampleRate = 0\<close> the ratio
  is infinite, \<open>inputBuffer.length / sampleRateRatio\<close> is zero and the result is empty;
  with a ratio of zero the quotient is NaN for an empty input and infinite otherwise.
\<close>

function resample_loop ::
  "arith \<Rightarrow> number list \<Rightarrow> real \<Rightarrow> nat \<Rightarrow> nat \<Rightarrow> number list \<Rightarrow> number list" where
  "resample_loop A inputBuffer sampleRateRatio newLength i result =
     (if i < newLength then
        (let index = rnd A (real i * sampleRateRatio);
             indexFloor = \<lfloor>index\<rfloor>;
             indexCeil = \<lceil>index\<rceil>
         in if int (length inputBuffer) \<le> indexCeil
            then resample_loop A inputBuffer sampleRateRatio newLength (Suc i)
                   (result[i := get inputBuffer (int (length inputBuffer) - 1)])
            else (let weight = rnd A (index - of_int indexFloor)
                  in resample_loop A inputBuffer sampleRateRatio newLength (Suc i)
                       (result[i := toFloat32 A
                          (js_add A (js_mul A (get inputBuffer indexFloor) (rnd A (1 - weight)))
                                    (js_mul A (get inputBuffer indexCeil) weight))])))
      else result)"
  by pat_completeness auto
termination
  by (relation "measure (\<lambda>(A, inputBuffer, sampleRateRatio, newLength, i, result). newLength - i)")
     auto

declare resample_loop.simps [simp del]

definition resampleBuffer :: "arith \<Rightarrow> number list \<Rightarrow> real \<Rightarrow> real \<Rightarrow> number list option" where
  "resampleBuffer A inputBuffer fromSampleRate toSampleRate =
     (if fromSampleRate = toSampleRate then Some inputBuffer
      else if toSampleRate = 0 then Some []
      else (let sampleRateRatio = rnd A (fromSampleRate / toSampleRate)
            in if sampleRateRatio = 0 then (if inputBuffer = [] then Some [] else None)
               else (let newLength = Math_round (rnd A (real (length inputBuffer) / sampleRateRatio))
                     in if newLength < 0 then None
                        else Some (resample_loop A inputBuffer sampleRateRatio (nat newLength) 0
                                     (replicate (nat newLength) (Fin 0))))))"

text \<open>\<open>convertTo16BitPCM\<close>: \<open>0x8000\<close> is 32768 and \<open>0x7FFF\<close> is 32767.\<close>

function convert_loop :: "arith \<Rightarrow> number list \<Rightarrow> nat \<Rightarrow> 16 word list \<Rightarrow> 16 word list" where
  "convert_loop A input i output =
     (if i < length input then
        (let s = Math_max (Fin (- 1)) (Math_min (Fin 1) (input ! i))
         in convert_loop A input (Suc i)
              (output[i := toInt16 (if js_less s (Fin 0) then js_mul A s 32768 else js_mul A s 32767)]))
      else output)"
  by pat_completeness auto
termination
  by (relation "measure (\<lambda>(A, input, i, output). length input - i)") auto

declare convert_loop.simps [simp del]

definition convertTo16BitPCM :: "arith \<Rightarrow> number list \<Rightarrow> 16 word list" where
  "convertTo16BitPCM A input = convert_loop A input 0 (replicate (length input) 0)"

definition TARGET_SAMPLE_RATE :: real where
  "TARGET_SAMPLE_RATE = 16000"

section \<open>The page state\<close>

text \<open>
  The variables of the page that the handlers read and write, and what they have done to
  the platform so far. Strings are lists of code units below 256. Console output is not
  part of the state.
  \<^item> \<open>audioContext\<close>: \<open>audioPlayer.audioContext\<close> is not null;
  \<open>decoding\<close>: the containers handed to \<open>decodeAudioData\<close> whose promise is pending;
  \<open>playing\<close>: the containers decoded and started.
  \<^item> \<open>scriptNode\<close>, \<open>mediaStreamSource\<close>: the variable is not null;
  \<open>tracks\<close>: the microphone tracks are live; \<open>visualizer\<close>: the canvas is shown;
  \<open>timers\<close>: the settle timers of \<open>stopStreaming\<close> that have not fired.
  \<^item> \<open>readyState\<close>: of the websocket; \<open>sent\<close>: the binary frames given to
  \<open>websocket.send\<close>, as the Int16Array they are the buffer of;
  \<open>sampleRate\<close>: of the capture context.
\<close>

datatype role = User | Assistant

datatype entry = Initial string | Bubble role string

datatype button = Idle | Recording | Processing

datatype ready = CONNECTING | OPEN | CLOSING | CLOSED

record state =
  isRecording :: bool
  rawAudioChunks :: "bytes list"
  audioContext :: bool
  decoding :: "bytes list"
  playing :: "bytes list"
  chatStatus :: "string \<times> bool"
  chatHistory :: "entry list"
  recordButton :: button
  scriptNode :: bool
  mediaStreamSource :: bool
  tracks :: bool
  visualizer :: bool
  timers :: nat
  readyState :: ready
  sampleRate :: real
  sent :: "16 word list list"

subsection \<open>Status line, record button, transcript\<close>

definition updateRecordButton :: "state \<Rightarrow> button \<Rightarrow> state" where
  "updateRecordButton s b = s\<lparr>recordButton := b\<rparr>"

definition updateStatus :: "state \<Rightarrow> string \<Rightarrow> bool \<Rightarrow> state" where
  "updateStatus s message isError = s\<lparr>chatStatus := (message, isError)\<rparr>"

text \<open>\<open>querySelector('.initial-message')\<close> finds the first such element, which is removed.\<close>

fun remove_initial :: "entry list \<Rightarrow> entry list" where
  "remove_initial [] = []"
| "remove_initial (Initial t # es) = es"
| "remove_initial (e # es) = e # remove_initial es"

definition addMessageToHistory :: "state \<Rightarrow> string \<Rightarrow> role \<Rightarrow> state" where
  "addMessageToHistory s t r = s\<lparr>chatHistory := remove_initial (chatHistory s) @ [Bubble r t]\<rparr>"

text \<open>The text of the last assistant bubble is replaced, when there is one.\<close>

fun set_last_assistant :: "string \<Rightarrow> entry list \<Rightarrow> entry list" where
  "set_last_assistant t [] = []"
| "set_last_assistant t (Bubble Assistant u # es) = Bubble Assistant t # es"
| "set_last_assistant t (e # es) = e # set_last_assistant t es"

definition updateAssistantMessage :: "state \<Rightarrow> string \<Rightarrow> state" where
  "updateAssistantMessage s t = s\<lparr>chatHistory := rev (set_last_assistant t (rev (chatHistory s)))\<rparr>"

subsection \<open>AudioPlayer\<close>

definition start :: "state \<Rightarrow> state" where
  "start s = s\<lparr>audioContext := True, rawAudioChunks := []\<rparr>"

definition stop :: "state \<Rightarrow> state" where
  "stop s = s\<lparr>rawAudioChunks := []\<rparr>"

definition queueChunk :: "state \<Rightarrow> bytes \<Rightarrow> state" where
  "queueChunk s arrayBuffer = s\<lparr>rawAudioChunks := rawAudioChunks s @ [arrayBuffer]\<rparr>"

text \<open>The loop of \<open>play\<close> that copies every chunk into \<open>combined\<close> at the running offset.\<close>

fun combine :: "bytes \<Rightarrow> nat \<Rightarrow> bytes list \<Rightarrow> bytes option" where
  "combine combined offset [] = Some combined"
| "combine combined offset (chunk # chunks) =
     do { c \<leftarrow> set_at combined chunk offset; combine c (offset + length chunk) chunks }"

text \<open>
  \<open>play\<close> is asynchronous. Its first part runs to the \<open>await\<close>: it returns at once on an
  empty list of chunks, else it builds the container and hands it to \<open>decodeAudioData\<close>.
  An exception before the \<open>try\<close> rejects the promise of \<open>play\<close> and changes nothing; with
  no audio context the call inside the \<open>try\<close> raises and the \<open>catch\<close> reports it.
\<close>

definition play :: "state \<Rightarrow> state" where
  "play s =
     (if length (rawAudioChunks s) = 0 then s
      else (let totalLength = foldl (\<lambda>acc chunk. acc + length chunk) 0 (rawAudioChunks s);
                combined = replicate totalLength 0
            in case combine combined 0 (rawAudioChunks s) \<bind> createWavBuffer of
                 None \<Rightarrow> s
               | Some wavBuffer \<Rightarrow>
                   if audioContext s then s\<lparr>decoding := decoding s @ [wavBuffer]\<rparr>
                   else updateStatus s ''Error playing back audio'' True))"

text \<open>
  The second part of \<open>play\<close> runs when the decoder has settled the promise of the container
  at position \<open>k\<close> of \<open>decoding\<close>: \<open>ok\<close> says that decoding and starting the source
  succeeded, in which case the list of chunks is reset; otherwise the \<open>catch\<close> reports
  the failure.
\<close>

definition play_resume :: "state \<Rightarrow> nat \<Rightarrow> bool \<Rightarrow> state" where
  "play_resume s k ok =
     (if k < length (decoding s) then
        (let wavBuffer = decoding s ! k;
             s1 = s\<lparr>decoding := take k (decoding s) @ drop (Suc k) (decoding s)\<rparr>
         in if ok then s1\<lparr>playing := playing s1 @ [wavBuffer], rawAudioChunks := []\<rparr>
            else updateStatus s1 ''Error playing back audio'' True)
      else s)"

subsection \<open>Inbound messages\<close>

text \<open>
  \<open>window.atob\<close> belongs to the platform: the handlers take it as the parameter \<open>atob\<close>,
  which gives the code units of the binary string, or \<open>None\<close> where it raises. The
  exception leaves the handler, and the state is as before the message.
\<close>

definition base64ToArrayBuffer :: "(string \<Rightarrow> nat list option) \<Rightarrow> string \<Rightarrow> bytes option" where
  "base64ToArrayBuffer atob base64String =
     do { binaryString \<leftarrow> atob base64String; Some (map of_nat binaryString) }"

text \<open>
  A parsed message: its \<open>type\<close> and the fields the handlers read, each a string when
  present (\<open>mtype\<close>, \<open>mtext\<close>, \<open>mmessage\<close> for \<open>type\<close>, \<open>text\<close>, \<open>message\<close>).
\<close>

record inbound =
  mtype :: string
  mtext :: "string option"
  audio_data :: "string option"
  mmessage :: "string option"

definition handleAudioStreamStart :: "state \<Rightarrow> state" where
  "handleAudioStreamStart s =
     addMessageToHistory (updateStatus s ''Receiving audio stream...'' False) ''...'' Assistant"

definition handleAudioChunk :: "(string \<Rightarrow> nat list option) \<Rightarrow> state \<Rightarrow> inbound \<Rightarrow> state" where
  "handleAudioChunk atob s chunkData =
     (case audio_data chunkData of
        None \<Rightarrow> s
      | Some a \<Rightarrow>
          if a = [] then s
          else (case base64ToArrayBuffer atob a of
                  None \<Rightarrow> s
                | Some arrayBuffer \<Rightarrow> queueChunk s arrayBuffer))"

definition handleAudioStreamEnd :: "state \<Rightarrow> state" where
  "handleAudioStreamEnd s = play (updateStatus s ''Audio stream complete. Playing...'' False)"

subsection \<open>Stopping\<close>

definition stopChatVisualizer :: "state \<Rightarrow> state" where
  "stopChatVisualizer s = s\<lparr>visualizer := False\<rparr>"

definition stopStreaming :: "state \<Rightarrow> state" where
  "stopStreaming s =
     (if \<not> isRecording s then s
      else (let s1 = s\<lparr>isRecording := False\<rparr>;
                s2 = updateRecordButton s1 Processing;
                s3 = s2\<lparr>timers := Suc (timers s2)\<rparr>;
                s4 = (if scriptNode s3 then s3\<lparr>scriptNode := False\<rparr> else s3);
                s5 = (if mediaStreamSource s4
                      then s4\<lparr>tracks := False, mediaStreamSource := False\<rparr> else s4)
            in stopChatVisualizer s5))"

text \<open>The callback of the settle timer, two seconds after \<open>stopStreaming\<close>.\<close>

definition settle :: "state \<Rightarrow> state" where
  "settle s =
     (if timers s = 0 then s
      else updateStatus (updateRecordButton (s\<lparr>timers := timers s - 1\<rparr>) Idle)
             ''Ready for command.'' False)"

subsection \<open>The websocket handlers\<close>

text \<open>
  \<open>event.data\<close> as \<open>onmessage\<close> sorts it: not a string, a string that is blank after
  \<open>trim\<close>, a string that \<open>JSON.parse\<close> rejects, or a parsed message.
\<close>

datatype payload = NotString | Blank | Unparsable | Json inbound

definition is_space :: "char \<Rightarrow> bool" where
  "is_space c \<longleftrightarrow> (of_char c :: nat) \<in> {9, 10, 11, 12, 13, 32, 160}"

definition trim :: "string \<Rightarrow> string" where
  "trim t = rev (dropWhile is_space (rev (dropWhile is_space t)))"

definition onmessage :: "(string \<Rightarrow> nat list option) \<Rightarrow> state \<Rightarrow> payload \<Rightarrow> state" where
  "onmessage atob s d =
     (case d of
        NotString \<Rightarrow> s
      | Blank \<Rightarrow> s
      | Unparsable \<Rightarrow> s
      | Json message \<Rightarrow>
          if mtype message = ''error'' then
            stopStreaming
              (updateStatus s
                 (''Server Error: '' @ (case mmessage message of None \<Rightarrow> ''undefined'' | Some t \<Rightarrow> t))
                 True)
          else if mtype message = ''transcription'' then
            (case mtext message of
               None \<Rightarrow> s
             | Some t \<Rightarrow> if t \<noteq> [] \<and> trim t \<noteq> [] then addMessageToHistory s t User else s)
          else if mtype message = ''audio_stream_start'' then handleAudioStreamStart s
          else if mtype message = ''audio_chunk'' then handleAudioChunk atob s message
          else if mtype message = ''audio_stream_end'' then handleAudioStreamEnd s
          else if mtype message = ''llm_response_text'' then
            updateAssistantMessage s (case mtext message of None \<Rightarrow> [] | Some t \<Rightarrow> t)
          else s)"

text \<open>The messages of a run, in the order of their arrival.\<close>

definition receive :: "(string \<Rightarrow> nat list option) \<Rightarrow> state \<Rightarrow> payload list \<Rightarrow> state" where
  "receive atob s ds = foldl (onmessage atob) s ds"

text \<open>The messages of the protocol that carry audio.\<close>

definition audio_stream_start :: payload where
  "audio_stream_start =
     Json \<lparr>mtype = ''audio_stream_start'', mtext = None, audio_data = None, mmessage = None\<rparr>"

definition audio_chunk :: "string option \<Rightarrow> payload" where
  "audio_chunk a = Json \<lparr>mtype = ''audio_chunk'', mtext = None, audio_data = a, mmessage = None\<rparr>"

definition audio_stream_end :: payload where
  "audio_stream_end =
     Json \<lparr>mtype = ''audio_stream_end'', mtext = None, audio_data = None, mmessage = None\<rparr>"

subsection \<open>The capture callback\<close>

text \<open>
  \<open>scriptNode.onaudioprocess\<close> on one block of samples. An exception of the resampler
  leaves the callback before anything is sent.
\<close>

definition onaudioprocess :: "arith \<Rightarrow> state \<Rightarrow> number list \<Rightarrow> state" where
  "onaudioprocess A s pcmData =
     (if \<not> isRecording s \<or> readyState s \<noteq> OPEN then s
      else (case resampleBuffer A pcmData (sampleRate s) TARGET_SAMPLE_RATE of
              None \<Rightarrow> s
            | Some resampledData \<Rightarrow>
                (let pcm16Data = convertTo16BitPCM A resampledData
                 in s\<lparr>sent := sent s @ [pcm16Data]\<rparr>)))"

subsection \<open>The decoder of the platform, for concrete runs\<close>

text \<open>
  \<open>window.atob\<close> as the HTML standard defines it (forgiving-base64 decode): ASCII
  whitespace is dropped, up to two \<open>=\<close> at the end of a text of a multiple of four
  characters are dropped, a length of \<open>1\<close> modulo \<open>4\<close> or a character outside the alphabet
  raises, and every character stands for six bits, the bits left over at the end being
  discarded.
\<close>

definition sextet :: "char \<Rightarrow> nat option" where
  "sextet c =
     (let n = of_char c
      in if 65 \<le> n \<and> n \<le> 90 then Some (n - 65)
         else if 97 \<le> n \<and> n \<le> 122 then Some (n - 71)
         else if 48 \<le> n \<and> n \<le> 57 then Some (n + 4)
         else if n = 43 then Some 62
         else if n = 47 then Some 63
         else None)"

fun octets :: "nat list \<Rightarrow> nat list" where
  "octets (a # b # c # d # rest) =
     (let n = ((a * 64 + b) * 64 + c) * 64 + d
      in n div 65536 # n div 256 mod 256 # n mod 256 # octets rest)"
| "octets [a, b, c] = (let n = (a * 64 + b) * 64 + c in [n div 1024, n div 4 mod 256])"
| "octets [a, b] = [(a * 64 + b) div 16]"
| "octets rest = []"

definition strip_padding :: "string \<Rightarrow> string" where
  "strip_padding d =
     (if length d mod 4 = 0 \<and> d \<noteq> [] \<and> last d = CHR ''=''
      then (if butlast d \<noteq> [] \<and> last (butlast d) = CHR ''='' then butlast (butlast d) else butlast d)
      else d)"

definition window_atob :: "string \<Rightarrow> nat list option" where
  "window_atob t =
     (let d = strip_padding (filter (\<lambda>c. (of_char c :: nat) \<notin> {9, 10, 12, 13, 32}) t)
      in if length d mod 4 = 1 then None
         else map_option octets (those (map sextet d)))"

subsection \<open>A page that is recording\<close>

text \<open>
  The page as \<open>startStreaming\<close> and \<open>websocket.onopen\<close> leave it on a first recording:
  the player started, the websocket open, the capture graph connected, nothing received
  or sent yet.
\<close>

definition recording_state :: state where
  "recording_state =
     \<lparr>isRecording = True, rawAudioChunks = [], audioContext = True, decoding = [], playing = [],
      chatStatus = (''Connected. Recording...'', False),
      chatHistory = [Initial ''Awaiting audio input...''],
      recordButton = Recording, scriptNode = True, mediaStreamSource = True, tracks = True,
      visualizer = True, timers = 0, readyState = OPEN, sampleRate = 48000, sent = []\<rparr>"

section \<open>The words of the specification\<close>

text \<open>
  The scaling that the specification asks of the encoder, on a clamped sample: by 32768
  when it is negative and by 32767 otherwise.
\<close>

definition scaled :: "real \<Rightarrow> real" where
  "scaled s = (if s < 0 then s * 32768 else s * 32767)"

section \<open>The container builder is correct\<close>

lemma length_bytes16 [simp]: "length (bytes16 w) = 2"
  by (simp add: bytes16_def)

lemma length_bytes32 [simp]: "length (bytes32 w) = 4"
  by (simp add: bytes32_def)

lemma length_ascii [simp]: "length (ascii s) = length s"
  by (simp add: ascii_def)

lemma nat_bytes4:
  "(x::nat) mod 256 + (256 * (x div 256 mod 256)
     + (65536 * (x div 65536 mod 256) + 16777216 * (x div 16777216))) = x"
proof -
  have a: "x div 65536 = x div 256 div 256" by (simp add: div_mult2_eq)
  have b: "x div 16777216 = x div 256 div 256 div 256" by (simp add: div_mult2_eq)
  define y where "y = x div 256"
  define z where "z = y div 256"
  have "x = x mod 256 + 256 * y" by (simp add: y_def)
  moreover have "y = y mod 256 + 256 * z" by (simp add: z_def)
  moreover have "z = z mod 256 + 256 * (z div 256)" by simp
  ultimately show ?thesis
    unfolding a b y_def [symmetric] z_def [symmetric] by linarith
qed

lemma le_nat_bytes16: "le_nat (bytes16 w) = unat w"
proof -
  have "unat w < 2 ^ 16" using unsigned_less [of w] by simp
  then show ?thesis
    by (simp add: bytes16_def unsigned_ucast_eq unat_drop_bit_eq drop_bit_eq_div
        take_bit_eq_mod unat_div)
qed

lemma le_nat_bytes32: "le_nat (bytes32 w) = unat w"
proof -
  have "unat w < 2 ^ 32" using unsigned_less [of w] by simp
  then show ?thesis
    by (simp add: bytes32_def unsigned_ucast_eq unat_drop_bit_eq drop_bit_eq_div
        take_bit_eq_mod unat_div nat_bytes4)
qed

text \<open>A write into the zeros that follow what has been written so far.\<close>

lemma set_at_zeros:
  "set_at (h @ replicate (length src + k) 0) src (length h) = Some (h @ src @ replicate k 0)"
  by (simp add: set_at_def replicate_add)

lemma setUint8_zeros:
  "setUint8 (h @ replicate (Suc k) 0) (length h) v = Some (h @ of_nat v # replicate k 0)"
  by (simp add: setUint8_def)

lemma writeString_zeros:
  "writeString (h @ replicate (length s + k) 0) (length h) s = Some (h @ ascii s @ replicate k 0)"
proof (induction s arbitrary: h)
  case Nil
  then show ?case by (simp add: ascii_def)
next
  case (Cons c cs)
  let ?h = "h @ [of_nat (of_char c)]"
  have "writeString (h @ replicate (length (c # cs) + k) 0) (length h) (c # cs)
      = writeString (?h @ replicate (length cs + k) 0) (length ?h) cs"
    using setUint8_zeros [of h "length cs + k" "of_char c"] by simp
  also have "\<dots> = Some (?h @ ascii cs @ replicate k 0)"
    by (rule Cons.IH)
  finally show ?case by (simp add: ascii_def)
qed

lemma writeString_at:
  "off = length h \<Longrightarrow> n = length s + k \<Longrightarrow>
   writeString (h @ replicate n 0) off s = Some ((h @ ascii s) @ replicate k 0)"
  using writeString_zeros [of h s k] by simp

lemma setUint32_at:
  "off = length h \<Longrightarrow> n = 4 + k \<Longrightarrow>
   setUint32 (h @ replicate n 0) off v True = Some ((h @ bytes32 (of_nat v)) @ replicate k 0)"
  using set_at_zeros [of h "bytes32 (of_nat v)" k] by (simp add: setUint32_def)

lemma setUint16_at:
  "off = length h \<Longrightarrow> n = 2 + k \<Longrightarrow>
   setUint16 (h @ replicate n 0) off v True = Some ((h @ bytes16 (of_nat v)) @ replicate k 0)"
  using set_at_zeros [of h "bytes16 (of_nat v)" k] by (simp add: setUint16_def)

lemma set_at_end:
  "off = length h \<Longrightarrow> n = length src \<Longrightarrow> set_at (h @ replicate n 0) src off = Some (h @ src)"
  using set_at_zeros [of h src 0] by simp

text \<open>The buffer that \<open>createWavBuffer\<close> returns, field by field.\<close>

lemma createWavBuffer_layout:
  "createWavBuffer pcm =
     Some (ascii ''RIFF'' @ bytes32 (of_nat (36 + length pcm)) @ ascii ''WAVE'' @ ascii ''fmt ''
           @ bytes32 16 @ bytes16 1 @ bytes16 1 @ bytes32 44100 @ bytes32 88200
           @ bytes16 2 @ bytes16 16 @ ascii ''data'' @ bytes32 (of_nat (length pcm)) @ pcm)"
proof -
  define N where "N = length pcm"
  have first: "writeString (replicate (44 + N) 0) 0 ''RIFF''
      = Some (([] @ ascii ''RIFF'') @ replicate (40 + N) 0)"
    using writeString_at [of 0 "[]" "44 + N" "''RIFF''" "40 + N"] by simp
  show ?thesis
    unfolding createWavBuffer_def Let_def N_def [symmetric]
    apply (subst first, simp only: bind.bind_lunit)
    apply (subst setUint32_at [where k = "36 + N"], simp, simp, simp only: bind.bind_lunit)
    apply (subst writeString_at [where k = "32 + N"], simp, simp, simp only: bind.bind_lunit)
    apply (subst writeString_at [where k = "28 + N"], simp, simp, simp only: bind.bind_lunit)
    apply (subst setUint32_at [where k = "24 + N"], simp, simp, simp only: bind.bind_lunit)
    apply (subst setUint16_at [where k = "22 + N"], simp, simp, simp only: bind.bind_lunit)
    apply (subst setUint16_at [where k = "20 + N"], simp, simp, simp only: bind.bind_lunit)
    apply (subst setUint32_at [where k = "16 + N"], simp, simp, simp only: bind.bind_lunit)
    apply (subst setUint32_at [where k = "12 + N"], simp, simp, simp only: bind.bind_lunit)
    apply (subst setUint16_at [where k = "10 + N"], simp, simp, simp only: bind.bind_lunit)
    apply (subst setUint16_at [where k = "8 + N"], simp, simp, simp only: bind.bind_lunit)
    apply (subst writeString_at [where k = "4 + N"], simp, simp, simp only: bind.bind_lunit)
    apply (subst setUint32_at [where k = "N"], simp, simp, simp only: bind.bind_lunit)
    apply (subst set_at_end, simp, simp add: N_def)
    apply (simp only: append_assoc append_Nil)
    apply simp
    done
qed

lemma createWavBuffer_data: "\<exists>h. length h = 44 \<and> createWavBuffer pcm = Some (h @ pcm)"
proof -
  let ?h = "ascii ''RIFF'' @ bytes32 (of_nat (36 + length pcm)) @ ascii ''WAVE'' @ ascii ''fmt ''
           @ bytes32 16 @ bytes16 1 @ bytes16 1 @ bytes32 44100 @ bytes32 88200
           @ bytes16 2 @ bytes16 16 @ ascii ''data'' @ bytes32 (of_nat (length pcm))"
  have "length ?h = 44" by simp
  moreover have "createWavBuffer pcm = Some (?h @ pcm)"
    by (simp add: createWavBuffer_layout)
  ultimately show ?thesis by blast
qed

lemma createWavBuffer_fields:
  "\<exists>buffer. createWavBuffer pcmData = Some buffer
     \<and> length buffer = 44 + length pcmData
     \<and> subarray 0 4 buffer = ascii ''RIFF''
     \<and> le_nat (subarray 4 8 buffer) = (36 + length pcmData) mod 2 ^ 32
     \<and> subarray 8 12 buffer = ascii ''WAVE''
     \<and> subarray 12 16 buffer = ascii ''fmt ''
     \<and> le_nat (subarray 16 20 buffer) = 16
     \<and> le_nat (subarray 20 22 buffer) = 1
     \<and> le_nat (subarray 22 24 buffer) = 1
     \<and> le_nat (subarray 24 28 buffer) = 44100
     \<and> le_nat (subarray 28 32 buffer) = 88200
     \<and> le_nat (subarray 32 34 buffer) = 2
     \<and> le_nat (subarray 34 36 buffer) = 16
     \<and> subarray 36 40 buffer = ascii ''data''
     \<and> le_nat (subarray 40 44 buffer) = length pcmData mod 2 ^ 32
     \<and> drop 44 buffer = pcmData"
proof -
  let ?b = "ascii ''RIFF'' @ bytes32 (of_nat (36 + length pcmData)) @ ascii ''WAVE'' @ ascii ''fmt ''
           @ bytes32 16 @ bytes16 1 @ bytes16 1 @ bytes32 44100 @ bytes32 88200
           @ bytes16 2 @ bytes16 16 @ ascii ''data'' @ bytes32 (of_nat (length pcmData)) @ pcmData"
  have b: "createWavBuffer pcmData = Some ?b"
    by (rule createWavBuffer_layout)
  have len: "length ?b = 44 + length pcmData" by simp
  have f0: "subarray 0 4 ?b = ascii ''RIFF''" by (simp add: subarray_def)
  have f4: "subarray 4 8 ?b = bytes32 (of_nat (36 + length pcmData))" by (simp add: subarray_def)
  have f8: "subarray 8 12 ?b = ascii ''WAVE''" by (simp add: subarray_def)
  have f12: "subarray 12 16 ?b = ascii ''fmt ''" by (simp add: subarray_def)
  have f16: "subarray 16 20 ?b = bytes32 16" by (simp add: subarray_def)
  have f20: "subarray 20 22 ?b = bytes16 1" by (simp add: subarray_def)
  have f22: "subarray 22 24 ?b = bytes16 1" by (simp add: subarray_def)
  have f24: "subarray 24 28 ?b = bytes32 44100" by (simp add: subarray_def)
  have f28: "subarray 28 32 ?b = bytes32 88200" by (simp add: subarray_def)
  have f32: "subarray 32 34 ?b = bytes16 2" by (simp add: subarray_def)
  have f34: "subarray 34 36 ?b = bytes16 16" by (simp add: subarray_def)
  have f36: "subarray 36 40 ?b = ascii ''data''" by (simp add: subarray_def)
  have f40: "subarray 40 44 ?b = bytes32 (of_nat (length pcmData))" by (simp add: subarray_def)
  have f44: "drop 44 ?b = pcmData" by simp
  have n4: "le_nat (subarray 4 8 ?b) = (36 + length pcmData) mod 2 ^ 32"
    unfolding f4 le_nat_bytes32 unat_of_nat by simp
  have n40: "le_nat (subarray 40 44 ?b) = length pcmData mod 2 ^ 32"
    unfolding f40 le_nat_bytes32 unat_of_nat by simp
  have n16: "le_nat (subarray 16 20 ?b) = 16" unfolding f16 le_nat_bytes32 by simp
  have n20: "le_nat (subarray 20 22 ?b) = 1" unfolding f20 le_nat_bytes16 by simp
  have n22: "le_nat (subarray 22 24 ?b) = 1" unfolding f22 le_nat_bytes16 by simp
  have n24: "le_nat (subarray 24 28 ?b) = 44100" unfolding f24 le_nat_bytes32 by simp
  have n28: "le_nat (subarray 28 32 ?b) = 88200" unfolding f28 le_nat_bytes32 by simp
  have n32: "le_nat (subarray 32 34 ?b) = 2" unfolding f32 le_nat_bytes16 by simp
  have n34: "le_nat (subarray 34 36 ?b) = 16" unfolding f34 le_nat_bytes16 by simp
  show ?thesis
    by (intro exI [of _ ?b] conjI) (fact b len f0 n4 f8 f12 n16 n20 n22 n24 n28 n32 n34 f36 n40 f44)+
qed

text \<open>
  C2. For every payload \<open>pcmData\<close> of \<open>N\<close> bytes, \<open>createWavBuffer\<close> returns a buffer of
  \<open>44 + N\<close> bytes: \<open>RIFF\<close>, the four bytes of \<open>36 + N\<close> least significant first, \<open>WAVE\<close>,
  \<open>fmt \<close>, then 16, the format tag 1, one channel, the sample rate 44100, the byte rate
  88200, the block align 2, 16 bits per sample, \<open>data\<close>, the four bytes of \<open>N\<close>, and the
  payload unchanged. A field of four bytes holds its number modulo \<open>2 ^ 32\<close>: the two size
  fields read \<open>36 + N\<close> and \<open>N\<close> for every payload that a container of this format can
  hold (\<open>36 + N < 2 ^ 32\<close>). For the empty payload the buffer has 44 bytes and the size
  field is 0.
\<close>

theorem createWavBuffer_header:
  "(\<exists>buffer. createWavBuffer pcmData = Some buffer
     \<and> length buffer = 44 + length pcmData
     \<and> subarray 0 4 buffer = ascii ''RIFF''
     \<and> le_nat (subarray 4 8 buffer) = (36 + length pcmData) mod 2 ^ 32
     \<and> subarray 8 12 buffer = ascii ''WAVE''
     \<and> subarray 12 16 buffer = ascii ''fmt ''
     \<and> le_nat (subarray 16 20 buffer) = 16
     \<and> le_nat (subarray 20 22 buffer) = 1
     \<and> le_nat (subarray 22 24 buffer) = 1
     \<and> le_nat (subarray 24 28 buffer) = 44100
     \<and> le_nat (subarray 28 32 buffer) = 88200
     \<and> le_nat (subarray 32 34 buffer) = 2
     \<and> le_nat (subarray 34 36 buffer) = 16
     \<and> subarray 36 40 buffer = ascii ''data''
     \<and> le_nat (subarray 40 44 buffer) = length pcmData mod 2 ^ 32
     \<and> drop 44 buffer = pcmData
     \<and> (36 + length pcmData < 2 ^ 32 \<longrightarrow>
          le_nat (subarray 4 8 buffer) = 36 + length pcmData
        \<and> le_nat (subarray 40 44 buffer) = length pcmData))
   \<and> (\<exists>header. createWavBuffer [] = Some header \<and> length header = 44
         \<and> le_nat (subarray 40 44 header) = 0)"
proof
  obtain buffer where b: "createWavBuffer pcmData = Some buffer
     \<and> length buffer = 44 + length pcmData
     \<and> subarray 0 4 buffer = ascii ''RIFF''
     \<and> le_nat (subarray 4 8 buffer) = (36 + length pcmData) mod 2 ^ 32
     \<and> subarray 8 12 buffer = ascii ''WAVE''
     \<and> subarray 12 16 buffer = ascii ''fmt ''
     \<and> le_nat (subarray 16 20 buffer) = 16
     \<and> le_nat (subarray 20 22 buffer) = 1
     \<and> le_nat (subarray 22 24 buffer) = 1
     \<and> le_nat (subarray 24 28 buffer) = 44100
     \<and> le_nat (subarray 28 32 buffer) = 88200
     \<and> le_nat (subarray 32 34 buffer) = 2
     \<and> le_nat (subarray 34 36 buffer) = 16
     \<and> subarray 36 40 buffer = ascii ''data''
     \<and> le_nat (subarray 40 44 buffer) = length pcmData mod 2 ^ 32
     \<and> drop 44 buffer = pcmData"
    using createWavBuffer_fields [of pcmData] by (elim exE)
  have fits: "le_nat (subarray 4 8 buffer) = 36 + length pcmData
        \<and> le_nat (subarray 40 44 buffer) = length pcmData"
    if "36 + length pcmData < 2 ^ 32"
  proof -
    have "le_nat (subarray 4 8 buffer) = (36 + length pcmData) mod 2 ^ 32"
      and "le_nat (subarray 40 44 buffer) = length pcmData mod 2 ^ 32"
      using b by blast+
    then show ?thesis using that by simp
  qed
  show "\<exists>buffer. createWavBuffer pcmData = Some buffer
     \<and> length buffer = 44 + length pcmData
     \<and> subarray 0 4 buffer = ascii ''RIFF''
     \<and> le_nat (subarray 4 8 buffer) = (36 + length pcmData) mod 2 ^ 32
     \<and> subarray 8 12 buffer = ascii ''WAVE''
     \<and> subarray 12 16 buffer = ascii ''fmt ''
     \<and> le_nat (subarray 16 20 buffer) = 16
     \<and> le_nat (subarray 20 22 buffer) = 1
     \<and> le_nat (subarray 22 24 buffer) = 1
     \<and> le_nat (subarray 24 28 buffer) = 44100
     \<and> le_nat (subarray 28 32 buffer) = 88200
     \<and> le_nat (subarray 32 34 buffer) = 2
     \<and> le_nat (subarray 34 36 buffer) = 16
     \<and> subarray 36 40 buffer = ascii ''data''
     \<and> le_nat (subarray 40 44 buffer) = length pcmData mod 2 ^ 32
     \<and> drop 44 buffer = pcmData
     \<and> (36 + length pcmData < 2 ^ 32 \<longrightarrow>
          le_nat (subarray 4 8 buffer) = 36 + length pcmData
        \<and> le_nat (subarray 40 44 buffer) = length pcmData)"
    using b fits by (intro exI [of _ buffer]) blast
  obtain header where "createWavBuffer [] = Some header" "length header = 44 + length ([]::bytes)"
    "le_nat (subarray 40 44 header) = length ([]::bytes) mod 2 ^ 32"
    using createWavBuffer_fields [of "[]"] by blast
  then show "\<exists>header. createWavBuffer [] = Some header \<and> length header = 44
         \<and> le_nat (subarray 40 44 header) = 0"
    by simp
qed

theorem createWavBuffer_header_witness:
  "36 + length [1, 2, 3 :: byte] < (2::nat) ^ 32
   \<and> (\<exists>buffer. createWavBuffer [1, 2, 3] = Some buffer
        \<and> length buffer = 47
        \<and> le_nat (subarray 4 8 buffer) = 39
        \<and> le_nat (subarray 40 44 buffer) = 3
        \<and> drop 44 buffer = [1, 2, 3])"
proof -
  have fits: "36 + length [1, 2, 3 :: byte] < (2::nat) ^ 32" by simp
  obtain buffer where "createWavBuffer [1, 2, 3] = Some buffer"
    and "length buffer = 44 + length [1, 2, 3 :: byte]"
    and "drop 44 buffer = [1, 2, 3]"
    and "36 + length [1, 2, 3 :: byte] < 2 ^ 32 \<longrightarrow>
          le_nat (subarray 4 8 buffer) = 36 + length [1, 2, 3 :: byte]
        \<and> le_nat (subarray 40 44 buffer) = length [1, 2, 3 :: byte]"
    using createWavBuffer_header [of "[1, 2, 3]"] by blast
  with fits show ?thesis by simp
qed

section \<open>The audio utilities are correct\<close>

subsection \<open>Rounding\<close>

lemma rounding_mono: "ieee_rounding r \<Longrightarrow> x \<le> y \<Longrightarrow> r x \<le> r y"
  by (simp add: ieee_rounding_def)

lemma rounding_int: "ieee_rounding r \<Longrightarrow> \<bar>k\<bar> \<le> 2 ^ 53 \<Longrightarrow> r (of_int k) = of_int k"
  by (simp add: ieee_rounding_def)

lemma rounding_0: "ieee_rounding r \<Longrightarrow> r 0 = 0"
  using rounding_int [of r 0] by simp

lemma rounding_nonneg: "ieee_rounding r \<Longrightarrow> 0 \<le> x \<Longrightarrow> 0 \<le> r x"
  using rounding_mono [of r 0 x] rounding_0 [of r] by simp

lemma rounding_32767: "ieee_rounding r \<Longrightarrow> r 32767 = 32767"
  using rounding_int [of r 32767] by simp

lemma rounding_m32768: "ieee_rounding r \<Longrightarrow> r (- 32768) = - 32768"
  using rounding_int [of r "- 32768"] by simp

lemma ieee_rounding_exact: "ieee_rounding (rnd exact)"
  by (simp add: ieee_rounding_def exact_def)

subsection \<open>The PCM16 encoder\<close>

lemma trunc_of_int [simp]: "trunc (of_int k) = k"
  by (simp add: trunc_def)

lemma trunc_bounds: "of_int a \<le> x \<Longrightarrow> x \<le> of_int b \<Longrightarrow> a \<le> 0 \<Longrightarrow> 0 \<le> b \<Longrightarrow> a \<le> trunc x \<and> trunc x \<le> b"
  by (auto simp: trunc_def le_floor_iff ceiling_le_iff floor_le_iff le_ceiling_iff)

lemma sint_int16: "- 32768 \<le> k \<Longrightarrow> k \<le> 32767 \<Longrightarrow> sint (word_of_int k :: 16 word) = k"
  by (simp add: sint_sbintrunc' signed_take_bit_int_eq_self)

lemma scaled_bounds: "- 1 \<le> s \<Longrightarrow> s \<le> 1 \<Longrightarrow> - 32768 \<le> scaled s \<and> scaled s \<le> 32767"
  by (auto simp: scaled_def) 

text \<open>
  The loop stores one encoded sample at every index, from \<open>i\<close> on (the \<open>let\<close> of the
  loop is unfolded).
\<close>

lemma convert_loop_eq:
  "length output = length input \<Longrightarrow> i \<le> length input \<Longrightarrow>
   convert_loop A input i output =
     take i output @
     map (\<lambda>x. toInt16 (if js_less (Math_max (Fin (- 1)) (Math_min (Fin 1) x)) (Fin 0)
                        then js_mul A (Math_max (Fin (- 1)) (Math_min (Fin 1) x)) 32768
                        else js_mul A (Math_max (Fin (- 1)) (Math_min (Fin 1) x)) 32767))
       (drop i input)"
proof (induction A input i "output" rule: convert_loop.induct)
  case (1 A input i out)
  let ?f = "\<lambda>x. toInt16 (if js_less (Math_max (Fin (- 1)) (Math_min (Fin 1) x)) (Fin 0)
                        then js_mul A (Math_max (Fin (- 1)) (Math_min (Fin 1) x)) 32768
                        else js_mul A (Math_max (Fin (- 1)) (Math_min (Fin 1) x)) 32767)"
  show ?case
  proof (cases "i < length input")
    case True
    let ?out = "out[i := ?f (input ! i)]"
    have "convert_loop A input i out = convert_loop A input (Suc i) ?out"
      using True by (subst convert_loop.simps) (simp add: Let_def)
    also have "\<dots> = take (Suc i) ?out @ map ?f (drop (Suc i) input)"
      using "1.IH" [OF True refl] True "1.prems" by simp
    also have "take (Suc i) ?out = take i out @ [?f (input ! i)]"
      using True "1.prems" by (simp add: take_Suc_conv_app_nth)
    also have "(take i out @ [?f (input ! i)]) @ map ?f (drop (Suc i) input)
        = take i out @ map ?f (drop i input)"
      using True by (simp add: Cons_nth_drop_Suc [symmetric])
    finally show ?thesis .
  next
    case False
    with "1.prems" show ?thesis by (subst convert_loop.simps) simp
  qed
qed

text \<open>What one sample is stored as.\<close>

lemma convertTo16BitPCM_map:
  "convertTo16BitPCM A input =
     map (\<lambda>x. toInt16 (if js_less (Math_max (Fin (- 1)) (Math_min (Fin 1) x)) (Fin 0)
                        then js_mul A (Math_max (Fin (- 1)) (Math_min (Fin 1) x)) 32768
                        else js_mul A (Math_max (Fin (- 1)) (Math_min (Fin 1) x)) 32767))
       input"
  by (simp add: convertTo16BitPCM_def convert_loop_eq)

lemma encode_Fin:
  assumes "ieee_rounding (rnd A)"
  shows "sint (toInt16 (if js_less (Math_max (Fin (- 1)) (Math_min (Fin 1) (Fin x))) (Fin 0)
                        then js_mul A (Math_max (Fin (- 1)) (Math_min (Fin 1) (Fin x))) 32768
                        else js_mul A (Math_max (Fin (- 1)) (Math_min (Fin 1) (Fin x))) 32767))
         = trunc (rnd A (scaled (max (- 1) (min 1 x))))"
proof -
  let ?s = "max (- 1) (min 1 x)"
  have s: "Math_max (Fin (- 1)) (Math_min (Fin 1) (Fin x)) = Fin ?s"
    by (simp add: Math_max_def Math_min_def max_def min_def)
  have "- 32768 \<le> scaled ?s" "scaled ?s \<le> 32767"
    using scaled_bounds [of ?s] by simp_all
  then have "rnd A (- 32768) \<le> rnd A (scaled ?s)" "rnd A (scaled ?s) \<le> rnd A 32767"
    using assms by (simp_all add: rounding_mono)
  then have "of_int (- 32768) \<le> rnd A (scaled ?s)" "rnd A (scaled ?s) \<le> of_int 32767"
    using assms by (simp_all add: rounding_32767 rounding_m32768)
  then have "- 32768 \<le> trunc (rnd A (scaled ?s)) \<and> trunc (rnd A (scaled ?s)) \<le> 32767"
    by (intro trunc_bounds) simp_all
  then have "sint (word_of_int (trunc (rnd A (scaled ?s))) :: 16 word) = trunc (rnd A (scaled ?s))"
    by (simp add: sint_int16)
  moreover have "(if js_less (Fin ?s) (Fin 0) then js_mul A (Fin ?s) 32768 else js_mul A (Fin ?s) 32767)
               = Fin (rnd A (scaled ?s))"
    by (auto simp: scaled_def max_def min_def)
  ultimately show ?thesis unfolding s by simp
qed

lemma encode_PInf:
  "ieee_rounding (rnd A) \<Longrightarrow>
   sint (toInt16 (if js_less (Math_max (Fin (- 1)) (Math_min (Fin 1) PInf)) (Fin 0)
                  then js_mul A (Math_max (Fin (- 1)) (Math_min (Fin 1) PInf)) 32768
                  else js_mul A (Math_max (Fin (- 1)) (Math_min (Fin 1) PInf)) 32767)) = 32767"
  by (simp add: Math_max_def Math_min_def rounding_32767 trunc_def)

lemma encode_NInf:
  "ieee_rounding (rnd A) \<Longrightarrow>
   sint (toInt16 (if js_less (Math_max (Fin (- 1)) (Math_min (Fin 1) NInf)) (Fin 0)
                  then js_mul A (Math_max (Fin (- 1)) (Math_min (Fin 1) NInf)) 32768
                  else js_mul A (Math_max (Fin (- 1)) (Math_min (Fin 1) NInf)) 32767)) = - 32768"
  by (simp add: Math_max_def Math_min_def rounding_m32768 trunc_def)

lemma encode_NaN:
  "sint (toInt16 (if js_less (Math_max (Fin (- 1)) (Math_min (Fin 1) NaN)) (Fin 0)
                  then js_mul A (Math_max (Fin (- 1)) (Math_min (Fin 1) NaN)) 32768
                  else js_mul A (Math_max (Fin (- 1)) (Math_min (Fin 1) NaN)) 32767)) = 0"
  by (simp add: Math_max_def Math_min_def)

lemma sint16_range: "- 32768 \<le> sint (w :: 16 word) \<and> sint w \<le> 32767"
  using sint_ge [of w] sint_lt [of w] by simp

text \<open>
  C3. For every array of samples and every rounding of the products, \<open>convertTo16BitPCM\<close>
  returns an array of the same length; a finite sample \<open>x\<close> is stored as the scaled value of
  \<open>x\<close> clamped to \<open>[-1, 1]\<close> (by 32768 when negative, by 32767 otherwise), cut to an integer
  towards zero, with no wrap-around; the infinities are stored as the clamped ends and NaN
  as 0. Every stored value lies in \<open>[-32768, 32767]\<close>, and 1, -1 and 0 are stored as
  32767, -32768 and 0.
\<close>

theorem convertTo16BitPCM_correct:
  assumes "ieee_rounding (rnd A)"
  shows "length (convertTo16BitPCM A input) = length input
    \<and> (\<forall>i<length input.
          - 32768 \<le> sint (convertTo16BitPCM A input ! i)
        \<and> sint (convertTo16BitPCM A input ! i) \<le> 32767
        \<and> sint (convertTo16BitPCM A input ! i) =
            (case input ! i of
               Fin x \<Rightarrow> trunc (rnd A (scaled (max (- 1) (min 1 x))))
             | PInf \<Rightarrow> 32767
             | NInf \<Rightarrow> - 32768
             | NaN \<Rightarrow> 0))
    \<and> convertTo16BitPCM A [Fin 1] = [32767]
    \<and> convertTo16BitPCM A [Fin (- 1)] = [- 32768]
    \<and> convertTo16BitPCM A [Fin 0] = [0]"
proof (intro conjI allI impI)
  show "length (convertTo16BitPCM A input) = length input"
    by (simp add: convertTo16BitPCM_map)
next
  fix i assume "i < length input"
  then show "- 32768 \<le> sint (convertTo16BitPCM A input ! i)"
    using sint16_range by blast
next
  fix i assume "i < length input"
  then show "sint (convertTo16BitPCM A input ! i) \<le> 32767"
    using sint16_range by blast
next
  fix i assume i: "i < length input"
  show "sint (convertTo16BitPCM A input ! i) =
          (case input ! i of
             Fin x \<Rightarrow> trunc (rnd A (scaled (max (- 1) (min 1 x))))
           | PInf \<Rightarrow> 32767
           | NInf \<Rightarrow> - 32768
           | NaN \<Rightarrow> 0)"
  proof -
    have nth: "convertTo16BitPCM A input ! i =
        toInt16 (if js_less (Math_max (Fin (- 1)) (Math_min (Fin 1) (input ! i))) (Fin 0)
                 then js_mul A (Math_max (Fin (- 1)) (Math_min (Fin 1) (input ! i))) 32768
                 else js_mul A (Math_max (Fin (- 1)) (Math_min (Fin 1) (input ! i))) 32767)"
      using i by (simp add: convertTo16BitPCM_map)
    show ?thesis
    proof (cases "input ! i")
      case (Fin x)
      show ?thesis
        unfolding nth Fin by (simp only: number.case encode_Fin [OF assms])
    next
      case PInf
      show ?thesis
        unfolding nth PInf by (simp only: number.case encode_PInf [OF assms])
    next
      case NInf
      show ?thesis
        unfolding nth NInf by (simp only: number.case encode_NInf [OF assms])
    next
      case NaN
      show ?thesis
        unfolding nth NaN by (simp only: number.case encode_NaN)
    qed
  qed
next
  have r: "rnd A 32767 = 32767" "rnd A (- 32768) = - 32768" "rnd A 0 = 0"
    using assms by (simp_all add: rounding_32767 rounding_m32768 rounding_0)
  show "convertTo16BitPCM A [Fin 1] = [32767]"
    by (simp add: convertTo16BitPCM_map Math_max_def Math_min_def r trunc_def)
  show "convertTo16BitPCM A [Fin (- 1)] = [- 32768]"
    by (simp add: convertTo16BitPCM_map Math_max_def Math_min_def r trunc_def)
  show "convertTo16BitPCM A [Fin 0] = [0]"
    by (simp add: convertTo16BitPCM_map Math_max_def Math_min_def r trunc_def)
qed

theorem convertTo16BitPCM_correct_witness:
  "ieee_rounding (rnd exact)
   \<and> convertTo16BitPCM exact [Fin (1 / 2), Fin (- 3), PInf, NaN] = [16383, - 32768, 32767, 0]
   \<and> sint (convertTo16BitPCM exact [Fin (1 / 2), Fin (- 3), PInf, NaN] ! 0)
       = trunc (rnd exact (scaled (max (- 1) (min 1 (1 / 2)))))
   \<and> trunc (rnd exact (scaled (max (- 1) (min 1 (1 / 2))))) = 16383"
proof -
  have h: "ieee_rounding (rnd exact)" by (rule ieee_rounding_exact)
  have "sint (convertTo16BitPCM exact [Fin (1 / 2), Fin (- 3), PInf, NaN] ! 0)
       = trunc (rnd exact (scaled (max (- 1) (min 1 (1 / 2)))))"
    using convertTo16BitPCM_correct [OF h, of "[Fin (1 / 2), Fin (- 3), PInf, NaN]"] by simp
  moreover have "trunc (rnd exact (scaled (max (- 1) (min 1 (1 / 2))))) = 16383"
    by (simp add: exact_def scaled_def trunc_def) 
  moreover have "convertTo16BitPCM exact [Fin (1 / 2), Fin (- 3), PInf, NaN] = [16383, - 32768, 32767, 0]"
    by (simp add: convertTo16BitPCM_map Math_max_def Math_min_def exact_def trunc_def)
  ultimately show ?thesis using h by simp
qed

subsection \<open>The resampler\<close>

text \<open>
  C9. When the source rate equals the target rate, \<open>resampleBuffer\<close> returns its input
  unchanged, whatever the input and the arithmetic.
\<close>

theorem resampleBuffer_identity:
  "resampleBuffer A inputBuffer rate rate = Some inputBuffer"
  by (simp add: resampleBuffer_def)

text \<open>The loop stores one sample at every index, from \<open>i\<close> on.\<close>

lemma resample_loop_eq:
  "length result = newLength \<Longrightarrow> i \<le> newLength \<Longrightarrow>
   resample_loop A inputBuffer sampleRateRatio newLength i result =
     take i result @
     map (\<lambda>i. let index = rnd A (real i * sampleRateRatio);
                   indexFloor = \<lfloor>index\<rfloor>;
                   indexCeil = \<lceil>index\<rceil>
               in if int (length inputBuffer) \<le> indexCeil
                  then get inputBuffer (int (length inputBuffer) - 1)
                  else (let weight = rnd A (index - of_int indexFloor)
                        in toFloat32 A
                             (js_add A (js_mul A (get inputBuffer indexFloor) (rnd A (1 - weight)))
                                       (js_mul A (get inputBuffer indexCeil) weight))))
       [i..<newLength]"
proof (induction A inputBuffer sampleRateRatio newLength i result rule: resample_loop.induct)
  case (1 A inputBuffer sampleRateRatio newLength i result)
  let ?g = "\<lambda>i. let index = rnd A (real i * sampleRateRatio);
                   indexFloor = \<lfloor>index\<rfloor>;
                   indexCeil = \<lceil>index\<rceil>
               in if int (length inputBuffer) \<le> indexCeil
                  then get inputBuffer (int (length inputBuffer) - 1)
                  else (let weight = rnd A (index - of_int indexFloor)
                        in toFloat32 A
                             (js_add A (js_mul A (get inputBuffer indexFloor) (rnd A (1 - weight)))
                                       (js_mul A (get inputBuffer indexCeil) weight)))"
  show ?case
  proof (cases "i < newLength")
    case True
    let ?r = "result[i := ?g i]"
    have "resample_loop A inputBuffer sampleRateRatio newLength i result
        = resample_loop A inputBuffer sampleRateRatio newLength (Suc i) ?r"
      using True by (subst resample_loop.simps) (simp add: Let_def)
    also have "\<dots> = take (Suc i) ?r @ map ?g [Suc i..<newLength]"
      using "1.IH" True "1.prems" by (simp add: Let_def split: if_splits)
    also have "take (Suc i) ?r = take i result @ [?g i]"
      using True "1.prems" by (simp add: take_Suc_conv_app_nth)
    also have "(take i result @ [?g i]) @ map ?g [Suc i..<newLength]
        = take i result @ map ?g [i..<newLength]"
      using True by (simp add: upt_conv_Cons)
    finally show ?thesis .
  next
    case False
    with "1.prems" show ?thesis by (subst resample_loop.simps) simp
  qed
qed

lemma get_nth: "0 \<le> k \<Longrightarrow> k < int (length xs) \<Longrightarrow> get xs k = xs ! nat k"
  by (simp add: get_def)

lemma get_last: "xs \<noteq> [] \<Longrightarrow> get xs (int (length xs) - 1) = last xs"
  by (simp add: get_def last_conv_nth nat_diff_distrib')

lemma Math_round_nonneg: "0 \<le> x \<Longrightarrow> 0 \<le> Math_round x"
  by (simp add: Math_round_def)

text \<open>
  C4. For rates that differ, \<open>resampleBuffer\<close> returns an array of length
  \<open>round(inputLength / (sourceRate / targetRate))\<close>, and the sample at index \<open>i\<close>, with
  \<open>pos = i * (sourceRate / targetRate)\<close>, \<open>lo = floor(pos)\<close>, \<open>hi = ceil(pos)\<close> and
  \<open>frac = pos - lo\<close>, is the last input sample when \<open>hi\<close> is beyond the input, and
  \<open>input[lo] * (1 - frac) + input[hi] * frac\<close>, stored in single precision, otherwise;
  an empty input gives an empty output. Every operation is the operation of the arithmetic
  \<open>A\<close>; the rates are positive and their quotient is not rounded to zero.
\<close>

theorem resampleBuffer_interpolates:
  assumes "ieee_rounding (rnd A)"
    and "fromSampleRate \<noteq> toSampleRate"
    and "0 < fromSampleRate" and "0 < toSampleRate"
    and "0 < rnd A (fromSampleRate / toSampleRate)"
  shows "\<exists>result. resampleBuffer A inputBuffer fromSampleRate toSampleRate = Some result
     \<and> int (length result) =
           Math_round (rnd A (real (length inputBuffer) / rnd A (fromSampleRate / toSampleRate)))
     \<and> (\<forall>i<length result.
            result ! i =
              (let pos = rnd A (real i * rnd A (fromSampleRate / toSampleRate));
                   lo = \<lfloor>pos\<rfloor>;
                   hi = \<lceil>pos\<rceil>;
                   frac = rnd A (pos - of_int lo)
               in if int (length inputBuffer) \<le> hi then last inputBuffer
                  else toFloat32 A
                         (js_add A (js_mul A (inputBuffer ! nat lo) (rnd A (1 - frac)))
                                   (js_mul A (inputBuffer ! nat hi) frac))))
     \<and> (inputBuffer = [] \<longrightarrow> result = [])"
proof -
  let ?r = "rnd A (fromSampleRate / toSampleRate)"
  let ?q = "rnd A (real (length inputBuffer) / ?r)"
  let ?n = "nat (Math_round ?q)"
  let ?g = "\<lambda>i. let index = rnd A (real i * ?r);
                   indexFloor = \<lfloor>index\<rfloor>;
                   indexCeil = \<lceil>index\<rceil>
               in if int (length inputBuffer) \<le> indexCeil
                  then get inputBuffer (int (length inputBuffer) - 1)
                  else (let weight = rnd A (index - of_int indexFloor)
                        in toFloat32 A
                             (js_add A (js_mul A (get inputBuffer indexFloor) (rnd A (1 - weight)))
                                       (js_mul A (get inputBuffer indexCeil) weight)))"
  let ?result = "map ?g [0..<?n]"
  have r: "0 < ?r" by (rule assms(5))
  have q: "0 \<le> ?q"
    using r by (intro rounding_nonneg [OF assms(1)]) simp
  have round: "0 \<le> Math_round ?q" using q by (rule Math_round_nonneg)
  have loop: "resample_loop A inputBuffer ?r ?n 0 (replicate ?n (Fin 0)) = ?result"
    using resample_loop_eq [of "replicate ?n (Fin 0)" ?n 0 A inputBuffer ?r] by simp
  have res: "resampleBuffer A inputBuffer fromSampleRate toSampleRate = Some ?result"
    unfolding resampleBuffer_def Let_def loop using assms(2,4) r round by simp
  have len: "int (length ?result) = Math_round ?q"
    using round by simp
  have empty: "?result = []" if "inputBuffer = []"
  proof -
    have "?q = 0" using that by (simp add: rounding_0 [OF assms(1)])
    then show ?thesis by (simp add: Math_round_def)
  qed
  have elem: "?result ! i =
      (let pos = rnd A (real i * ?r); lo = \<lfloor>pos\<rfloor>; hi = \<lceil>pos\<rceil>;
           frac = rnd A (pos - of_int lo)
       in if int (length inputBuffer) \<le> hi then last inputBuffer
          else toFloat32 A
                 (js_add A (js_mul A (inputBuffer ! nat lo) (rnd A (1 - frac)))
                           (js_mul A (inputBuffer ! nat hi) frac)))"
    if i: "i < length ?result" for i
  proof -
    have "i < ?n" using i by simp
    then have "?result \<noteq> []" by auto
    then have nonempty: "inputBuffer \<noteq> []" using empty by blast
    define pos where "pos = rnd A (real i * ?r)"
    have pos: "0 \<le> pos"
      unfolding pos_def using r by (intro rounding_nonneg [OF assms(1)]) simp
    then have lo: "0 \<le> \<lfloor>pos\<rfloor>" by simp
    have lohi: "\<lfloor>pos\<rfloor> \<le> \<lceil>pos\<rceil>" by (rule floor_le_ceiling)
    have "?result ! i = ?g i" using \<open>i < ?n\<close> by simp
    also have "\<dots> =
      (let lo = \<lfloor>pos\<rfloor>; hi = \<lceil>pos\<rceil>; frac = rnd A (pos - of_int lo)
       in if int (length inputBuffer) \<le> hi then last inputBuffer
          else toFloat32 A
                 (js_add A (js_mul A (inputBuffer ! nat lo) (rnd A (1 - frac)))
                           (js_mul A (inputBuffer ! nat hi) frac)))"
    proof (cases "int (length inputBuffer) \<le> \<lceil>pos\<rceil>")
      case True
      then show ?thesis
        using nonempty by (simp add: Let_def pos_def [symmetric] get_last)
    next
      case False
      have hi: "0 \<le> \<lceil>pos\<rceil>" "\<lceil>pos\<rceil> < int (length inputBuffer)"
        using False lo lohi by linarith+
      have lo': "\<lfloor>pos\<rfloor> < int (length inputBuffer)"
        using hi lohi by linarith
      have "get inputBuffer \<lfloor>pos\<rfloor> = inputBuffer ! nat \<lfloor>pos\<rfloor>"
        and "get inputBuffer \<lceil>pos\<rceil> = inputBuffer ! nat \<lceil>pos\<rceil>"
        by (rule get_nth [OF lo lo'], rule get_nth [OF hi])
      with False show ?thesis
        by (simp add: Let_def pos_def [symmetric])
    qed
    finally show ?thesis by (simp add: Let_def pos_def)
  qed
  show ?thesis
  proof (rule exI [of _ ?result], intro conjI allI impI)
    show "resampleBuffer A inputBuffer fromSampleRate toSampleRate = Some ?result"
      by (rule res)
    show "int (length ?result) = Math_round ?q"
      by (rule len)
    show "?result ! i =
      (let pos = rnd A (real i * ?r); lo = \<lfloor>pos\<rfloor>; hi = \<lceil>pos\<rceil>;
           frac = rnd A (pos - of_int lo)
       in if int (length inputBuffer) \<le> hi then last inputBuffer
          else toFloat32 A
                 (js_add A (js_mul A (inputBuffer ! nat lo) (rnd A (1 - frac)))
                           (js_mul A (inputBuffer ! nat hi) frac)))"
      if "i < length ?result" for i
      using that by (rule elem)
    show "?result = []" if "inputBuffer = []"
      using that by (rule empty)
  qed
qed

theorem resampleBuffer_interpolates_witness:
  "ieee_rounding (rnd exact) \<and> (8000::real) \<noteq> 16000 \<and> (0::real) < 8000 \<and> (0::real) < 16000
   \<and> 0 < rnd exact (8000 / 16000)
   \<and> (\<exists>result. resampleBuffer exact [Fin 0, Fin 1] 8000 16000 = Some result
         \<and> length result = 4 \<and> result ! 1 = Fin (1 / 2) \<and> result ! 3 = Fin 1)"
proof -
  have h1: "ieee_rounding (rnd exact)" by (rule ieee_rounding_exact)
  have h2: "(8000::real) \<noteq> 16000" by simp
  have h3: "(0::real) < 8000" by simp
  have h4: "(0::real) < 16000" by simp
  have h5: "0 < rnd exact (8000 / 16000)" by (simp add: exact_def)
  obtain result where res: "resampleBuffer exact [Fin 0, Fin 1] 8000 16000 = Some result"
    and len: "int (length result) =
           Math_round (rnd exact (real (length [Fin 0, Fin 1]) / rnd exact (8000 / 16000)))"
    and elem: "\<forall>i<length result.
            result ! i =
              (let pos = rnd exact (real i * rnd exact (8000 / 16000));
                   lo = \<lfloor>pos\<rfloor>;
                   hi = \<lceil>pos\<rceil>;
                   frac = rnd exact (pos - of_int lo)
               in if int (length [Fin 0, Fin 1]) \<le> hi then last [Fin 0, Fin 1]
                  else toFloat32 exact
                         (js_add exact (js_mul exact ([Fin 0, Fin 1] ! nat lo) (rnd exact (1 - frac)))
                                   (js_mul exact ([Fin 0, Fin 1] ! nat hi) frac)))"
    using resampleBuffer_interpolates [OF h1 h2 h3 h4 h5, of "[Fin 0, Fin 1]"] by blast
  have l: "length result = 4"
    using len by (simp add: exact_def Math_round_def)
  have e1: "result ! 1 = Fin (1 / 2)"
    using elem [rule_format, of 1] l by (simp add: exact_def Let_def)
  have e3: "result ! 3 = Fin 1"
    using elem [rule_format, of 3] l by (simp add: exact_def Let_def)
  show ?thesis
    using h1 h5 res l e1 e3 by simp
qed

section \<open>Reassembly and playback\<close>

lemma foldl_lengths:
  "foldl (\<lambda>acc chunk. acc + length chunk) a chunks = a + length (concat chunks)"
  by (induction chunks arbitrary: a) simp_all

lemma combine_zeros:
  "combine (pre @ replicate (length (concat chunks) + k) 0) (length pre) chunks
     = Some (pre @ concat chunks @ replicate k 0)"
proof (induction chunks arbitrary: pre)
  case Nil
  then show ?case by simp
next
  case (Cons c cs)
  have "combine (pre @ replicate (length (concat (c # cs)) + k) 0) (length pre) (c # cs)
      = combine ((pre @ c) @ replicate (length (concat cs) + k) 0) (length (pre @ c)) cs"
    using set_at_zeros [of pre c "length (concat cs) + k"] by (simp add: add.assoc)
  also have "\<dots> = Some ((pre @ c) @ concat cs @ replicate k 0)"
    by (rule Cons.IH)
  finally show ?case by simp
qed

lemma combine_all: "combine (replicate (length (concat chunks)) 0) 0 chunks = Some (concat chunks)"
  using combine_zeros [of "[]" chunks 0] by simp

text \<open>The first part of \<open>play\<close> on a list of chunks that is not empty.\<close>

lemma play_hands_over:
  assumes "rawAudioChunks s \<noteq> []" and "audioContext s"
  shows "\<exists>header. length header = 44
     \<and> createWavBuffer (concat (rawAudioChunks s)) = Some (header @ concat (rawAudioChunks s))
     \<and> play s = s\<lparr>decoding := decoding s @ [header @ concat (rawAudioChunks s)]\<rparr>"
proof -
  obtain header where h: "length header = 44"
    and wav: "createWavBuffer (concat (rawAudioChunks s)) = Some (header @ concat (rawAudioChunks s))"
    using createWavBuffer_data by blast
  have "play s = s\<lparr>decoding := decoding s @ [header @ concat (rawAudioChunks s)]\<rparr>"
    using assms by (simp add: play_def foldl_lengths combine_all wav)
  with h wav show ?thesis by blast
qed

lemma play_empty: "rawAudioChunks s = [] \<Longrightarrow> play s = s"
  by (simp add: play_def)

text \<open>The three audio messages reach their handlers.\<close>

lemma onmessage_start: "onmessage atob s audio_stream_start = handleAudioStreamStart s"
  by (simp add: onmessage_def audio_stream_start_def)

lemma onmessage_chunk:
  "onmessage atob s (audio_chunk a) =
     (case a of
        None \<Rightarrow> s
      | Some p \<Rightarrow>
          if p = [] then s
          else (case base64ToArrayBuffer atob p of None \<Rightarrow> s | Some c \<Rightarrow> queueChunk s c))"
  by (simp add: onmessage_def audio_chunk_def handleAudioChunk_def)

lemma onmessage_end: "onmessage atob s audio_stream_end = handleAudioStreamEnd s"
  by (simp add: onmessage_def audio_stream_end_def)

lemma receive_Nil [simp]: "receive atob s [] = s"
  by (simp add: receive_def)

lemma receive_Cons [simp]: "receive atob s (d # ds) = receive atob (onmessage atob s d) ds"
  by (simp add: receive_def)

lemma receive_append: "receive atob s (ds @ es) = receive atob (receive atob s ds) es"
  by (simp add: receive_def)

text \<open>A run of chunk messages with payloads appends the decoded payloads, in their order.\<close>

lemma receive_chunks:
  "list_all2 (\<lambda>p c. p \<noteq> [] \<and> base64ToArrayBuffer atob p = Some c) ps cs \<Longrightarrow>
   receive atob s (map (\<lambda>p. audio_chunk (Some p)) ps) = s\<lparr>rawAudioChunks := rawAudioChunks s @ cs\<rparr>"
proof (induction ps cs arbitrary: s rule: list_all2_induct)
  case Nil
  then show ?case by simp
next
  case (Cons p ps c cs)
  have "onmessage atob s (audio_chunk (Some p)) = queueChunk s c"
    using Cons.hyps(1) by (simp add: onmessage_chunk)
  then show ?case
    using Cons.IH [of "queueChunk s c"] by (simp add: queueChunk_def)
qed

text \<open>An utterance: the start marker, chunks with payloads, the end marker.\<close>

lemma receive_utterance:
  assumes "list_all2 (\<lambda>p c. p \<noteq> [] \<and> base64ToArrayBuffer atob p = Some c) ps cs"
    and "audioContext s" and "rawAudioChunks s @ cs \<noteq> []"
  shows "\<exists>header. length header = 44
     \<and> createWavBuffer (concat (rawAudioChunks s) @ concat cs)
           = Some (header @ concat (rawAudioChunks s) @ concat cs)
     \<and> receive atob s (audio_stream_start # map (\<lambda>p. audio_chunk (Some p)) ps @ [audio_stream_end])
         = (updateStatus (handleAudioStreamStart s) ''Audio stream complete. Playing...'' False)
             \<lparr>rawAudioChunks := rawAudioChunks s @ cs,
              decoding := decoding s @ [header @ concat (rawAudioChunks s) @ concat cs]\<rparr>"
proof -
  let ?s1 = "handleAudioStreamStart s"
  let ?s2 = "?s1\<lparr>rawAudioChunks := rawAudioChunks ?s1 @ cs\<rparr>"
  let ?s3 = "updateStatus ?s2 ''Audio stream complete. Playing...'' False"
  have s1: "rawAudioChunks ?s1 = rawAudioChunks s" "audioContext ?s1 = audioContext s"
    "decoding ?s1 = decoding s"
    by (simp_all add: handleAudioStreamStart_def addMessageToHistory_def updateStatus_def)
  have run: "receive atob s (audio_stream_start # map (\<lambda>p. audio_chunk (Some p)) ps @ [audio_stream_end])
      = play ?s3"
    by (simp add: receive_append onmessage_start receive_chunks [OF assms(1)] onmessage_end
        handleAudioStreamEnd_def)
  have s3: "rawAudioChunks ?s3 = rawAudioChunks s @ cs" "audioContext ?s3" "decoding ?s3 = decoding s"
    using assms(2) s1 by (simp_all add: updateStatus_def)
  obtain header where h: "length header = 44"
    and wav: "createWavBuffer (concat (rawAudioChunks ?s3)) = Some (header @ concat (rawAudioChunks ?s3))"
    and p: "play ?s3 = ?s3\<lparr>decoding := decoding ?s3 @ [header @ concat (rawAudioChunks ?s3)]\<rparr>"
    using play_hands_over [of ?s3] s3 assms(3) by auto
  have "play ?s3 = (updateStatus ?s1 ''Audio stream complete. Playing...'' False)
             \<lparr>rawAudioChunks := rawAudioChunks s @ cs,
              decoding := decoding s @ [header @ concat (rawAudioChunks s) @ concat cs]\<rparr>"
    unfolding p by (simp add: s1 updateStatus_def handleAudioStreamStart_def addMessageToHistory_def)
  with h wav run s3 show ?thesis by (intro exI [of _ header]) simp
qed

text \<open>Payloads of concrete runs, as the decoder of the platform reads them.\<close>

lemma atob_AQID: "base64ToArrayBuffer window_atob ''AQID'' = Some [1, 2, 3]"
  by (simp add: base64ToArrayBuffer_def window_atob_def strip_padding_def sextet_def)

lemma atob_BAU: "base64ToArrayBuffer window_atob ''BAU='' = Some [4, 5]"
  by (simp add: base64ToArrayBuffer_def window_atob_def strip_padding_def sextet_def)

lemma atob_Bg: "base64ToArrayBuffer window_atob ''Bg=='' = Some [6]"
  by (simp add: base64ToArrayBuffer_def window_atob_def strip_padding_def sextet_def)

lemma atob_Bw: "base64ToArrayBuffer window_atob ''Bw=='' = Some [7]"
  by (simp add: base64ToArrayBuffer_def window_atob_def strip_padding_def sextet_def)

lemma recording_state_simps [simp]:
  "rawAudioChunks recording_state = []" "audioContext recording_state"
  "decoding recording_state = []" "playing recording_state = []"
  "isRecording recording_state" "readyState recording_state = OPEN"
  by (simp_all add: recording_state_def)

text \<open>
  C1, as the code has it. From an empty Utterance Buffer, with an audio context, the start
  marker, three chunks whose payloads decode to \<open>c1\<close>, \<open>c2\<close>, \<open>c3\<close> and the end marker
  hand one container to the decoder, whose data section is \<open>c1 @ c2 @ c3\<close>. The buffer
  holds the three chunks while the decoder works and is empty once the decoder has
  succeeded and playback has started. A chunk with no payload changes nothing, and
  when no chunk arrived nothing is handed to the decoder and no error is reported.
\<close>

theorem reassembly_concatenates:
  assumes "rawAudioChunks s = []" and "audioContext s"
    and "p1 \<noteq> []" and "base64ToArrayBuffer atob p1 = Some c1"
    and "p2 \<noteq> []" and "base64ToArrayBuffer atob p2 = Some c2"
    and "p3 \<noteq> []" and "base64ToArrayBuffer atob p3 = Some c3"
  shows "\<exists>header. length header = 44
     \<and> createWavBuffer (c1 @ c2 @ c3) = Some (header @ c1 @ c2 @ c3)
     \<and> decoding (receive atob s [audio_stream_start, audio_chunk (Some p1), audio_chunk (Some p2),
                                  audio_chunk (Some p3), audio_stream_end])
         = decoding s @ [header @ c1 @ c2 @ c3]
     \<and> rawAudioChunks (receive atob s [audio_stream_start, audio_chunk (Some p1),
                                        audio_chunk (Some p2), audio_chunk (Some p3), audio_stream_end])
         = [c1, c2, c3]
     \<and> rawAudioChunks (play_resume (receive atob s [audio_stream_start, audio_chunk (Some p1),
                                        audio_chunk (Some p2), audio_chunk (Some p3), audio_stream_end])
                         (length (decoding s)) True) = []
     \<and> playing (play_resume (receive atob s [audio_stream_start, audio_chunk (Some p1),
                                        audio_chunk (Some p2), audio_chunk (Some p3), audio_stream_end])
                  (length (decoding s)) True) = playing s @ [header @ c1 @ c2 @ c3]
     \<and> onmessage atob t (audio_chunk None) = t
     \<and> onmessage atob t (audio_chunk (Some [])) = t
     \<and> decoding (receive atob s [audio_stream_start, audio_stream_end]) = decoding s
     \<and> playing (receive atob s [audio_stream_start, audio_stream_end]) = playing s
     \<and> chatStatus (receive atob s [audio_stream_start, audio_stream_end])
         = (''Audio stream complete. Playing...'', False)"
proof -
  define run where "run = receive atob s [audio_stream_start, audio_chunk (Some p1),
                               audio_chunk (Some p2), audio_chunk (Some p3), audio_stream_end]"
  define quiet where "quiet = receive atob s [audio_stream_start, audio_stream_end]"
  have chunks: "list_all2 (\<lambda>p c. p \<noteq> [] \<and> base64ToArrayBuffer atob p = Some c)
                  [p1, p2, p3] [c1, c2, c3]"
    using assms by simp
  obtain header where h: "length header = 44"
    and wav: "createWavBuffer (concat (rawAudioChunks s) @ concat [c1, c2, c3])
                = Some (header @ concat (rawAudioChunks s) @ concat [c1, c2, c3])"
    and utt: "receive atob s (audio_stream_start # map (\<lambda>p. audio_chunk (Some p)) [p1, p2, p3]
                                @ [audio_stream_end])
         = (updateStatus (handleAudioStreamStart s) ''Audio stream complete. Playing...'' False)
             \<lparr>rawAudioChunks := rawAudioChunks s @ [c1, c2, c3],
              decoding := decoding s @ [header @ concat (rawAudioChunks s) @ concat [c1, c2, c3]]\<rparr>"
    using receive_utterance [OF chunks assms(2)] by auto
  have run: "run = (updateStatus (handleAudioStreamStart s) ''Audio stream complete. Playing...'' False)
             \<lparr>rawAudioChunks := [c1, c2, c3], decoding := decoding s @ [header @ c1 @ c2 @ c3]\<rparr>"
    unfolding run_def using utt assms(1) by simp
  have wav': "createWavBuffer (c1 @ c2 @ c3) = Some (header @ c1 @ c2 @ c3)"
    using wav assms(1) by simp
  have d: "decoding run = decoding s @ [header @ c1 @ c2 @ c3]"
    and r: "rawAudioChunks run = [c1, c2, c3]"
    and pl: "playing run = playing s"
    unfolding run
    by (simp_all add: updateStatus_def handleAudioStreamStart_def addMessageToHistory_def)
  have resume: "rawAudioChunks (play_resume run (length (decoding s)) True) = []"
    "playing (play_resume run (length (decoding s)) True) = playing s @ [header @ c1 @ c2 @ c3]"
    by (simp_all add: play_resume_def d pl Let_def)
  have none: "onmessage atob t (audio_chunk None) = t" "onmessage atob t (audio_chunk (Some [])) = t"
    by (simp_all add: onmessage_chunk)
  have "quiet = updateStatus (handleAudioStreamStart s) ''Audio stream complete. Playing...'' False"
    unfolding quiet_def using assms(1)
    by (simp add: onmessage_start onmessage_end handleAudioStreamEnd_def play_empty
        updateStatus_def handleAudioStreamStart_def addMessageToHistory_def)
  then have quiet: "decoding quiet = decoding s" "playing quiet = playing s"
    "chatStatus quiet = (''Audio stream complete. Playing...'', False)"
    by (simp_all add: updateStatus_def handleAudioStreamStart_def addMessageToHistory_def)
  show ?thesis
    unfolding run_def [symmetric] quiet_def [symmetric]
    by (intro exI [of _ header] conjI) (fact h wav' d r resume none quiet)+
qed

theorem reassembly_concatenates_witness:
  "rawAudioChunks recording_state = [] \<and> audioContext recording_state
   \<and> ''AQID'' \<noteq> [] \<and> base64ToArrayBuffer window_atob ''AQID'' = Some [1, 2, 3]
   \<and> ''BAU='' \<noteq> [] \<and> base64ToArrayBuffer window_atob ''BAU='' = Some [4, 5]
   \<and> ''Bg=='' \<noteq> [] \<and> base64ToArrayBuffer window_atob ''Bg=='' = Some [6]
   \<and> (\<exists>header. length header = 44
        \<and> decoding (receive window_atob recording_state
              [audio_stream_start, audio_chunk (Some ''AQID''), audio_chunk (Some ''BAU=''),
               audio_chunk (Some ''Bg==''), audio_stream_end])
            = [header @ [1, 2, 3, 4, 5, 6]]
        \<and> rawAudioChunks (play_resume (receive window_atob recording_state
              [audio_stream_start, audio_chunk (Some ''AQID''), audio_chunk (Some ''BAU=''),
               audio_chunk (Some ''Bg==''), audio_stream_end]) 0 True) = [])"
proof -
  have h1: "rawAudioChunks recording_state = []" and h2: "audioContext recording_state"
    by simp_all
  have n: "''AQID'' \<noteq> []" "''BAU='' \<noteq> []" "''Bg=='' \<noteq> []" by simp_all
  show ?thesis
    using reassembly_concatenates [OF h1 h2 n(1) atob_AQID n(2) atob_BAU n(3) atob_Bg]
      atob_AQID atob_BAU atob_Bg
    by auto
qed

text \<open>
  C1 as the specification states it fails: after the end marker the buffer still holds the
  three chunks, and a decoder that fails leaves them there.
\<close>

theorem reassembly_buffer_not_emptied:
  "rawAudioChunks (receive window_atob recording_state
      [audio_stream_start, audio_chunk (Some ''AQID''), audio_chunk (Some ''BAU=''),
       audio_chunk (Some ''Bg==''), audio_stream_end]) = [[1, 2, 3], [4, 5], [6]]
   \<and> rawAudioChunks (play_resume (receive window_atob recording_state
      [audio_stream_start, audio_chunk (Some ''AQID''), audio_chunk (Some ''BAU=''),
       audio_chunk (Some ''Bg==''), audio_stream_end]) 0 False) \<noteq> []"
proof -
  define run where "run = receive window_atob recording_state
      [audio_stream_start, audio_chunk (Some ''AQID''), audio_chunk (Some ''BAU=''),
       audio_chunk (Some ''Bg==''), audio_stream_end]"
  have chunks: "list_all2 (\<lambda>p c. p \<noteq> [] \<and> base64ToArrayBuffer window_atob p = Some c)
                  [''AQID'', ''BAU='', ''Bg==''] [[1, 2, 3], [4, 5], [6]]"
    by (simp add: atob_AQID atob_BAU atob_Bg)
  obtain header where
    utt: "receive window_atob recording_state
            (audio_stream_start # map (\<lambda>p. audio_chunk (Some p)) [''AQID'', ''BAU='', ''Bg=='']
               @ [audio_stream_end])
         = (updateStatus (handleAudioStreamStart recording_state)
              ''Audio stream complete. Playing...'' False)
             \<lparr>rawAudioChunks := rawAudioChunks recording_state @ [[1, 2, 3], [4, 5], [6]],
              decoding := decoding recording_state
                @ [header @ concat (rawAudioChunks recording_state) @ concat [[1, 2, 3], [4, 5], [6]]]\<rparr>"
    using receive_utterance [OF chunks, of recording_state] by auto
  have r: "rawAudioChunks run = [[1, 2, 3], [4, 5], [6]]"
    and d: "length (decoding run) = 1"
    unfolding run_def using utt by simp_all
  have "rawAudioChunks (play_resume run 0 False) = [[1, 2, 3], [4, 5], [6]]"
    using r d by (simp add: play_resume_def Let_def updateStatus_def)
  with r show ?thesis unfolding run_def by simp
qed

text \<open>
  C5, at a run where the decoder fails. The start marker, one chunk and the end marker
  hand a container to the decoder; when the decoder rejects it the failure is reported and
  the chunk stays in the buffer, where a successful decode would have emptied it. The
  next utterance is then assembled behind the chunk that was left.
\<close>

theorem decode_failure_keeps_chunks:
  "rawAudioChunks (play_resume (receive window_atob recording_state
      [audio_stream_start, audio_chunk (Some ''AQID''), audio_stream_end]) 0 False) = [[1, 2, 3]]
   \<and> chatStatus (play_resume (receive window_atob recording_state
      [audio_stream_start, audio_chunk (Some ''AQID''), audio_stream_end]) 0 False)
       = (''Error playing back audio'', True)
   \<and> rawAudioChunks (play_resume (receive window_atob recording_state
      [audio_stream_start, audio_chunk (Some ''AQID''), audio_stream_end]) 0 True) = []
   \<and> map (drop 44) (decoding (receive window_atob (play_resume (receive window_atob recording_state
      [audio_stream_start, audio_chunk (Some ''AQID''), audio_stream_end]) 0 False)
      [audio_stream_start, audio_chunk (Some ''BAU=''), audio_stream_end])) = [[1, 2, 3, 4, 5]]"
proof -
  define run where "run = receive window_atob recording_state
      [audio_stream_start, audio_chunk (Some ''AQID''), audio_stream_end]"
  define failed where "failed = play_resume run 0 False"
  have chunks: "list_all2 (\<lambda>p c. p \<noteq> [] \<and> base64ToArrayBuffer window_atob p = Some c)
                  [''AQID''] [[1, 2, 3]]"
    by (simp add: atob_AQID)
  obtain header where
    utt: "receive window_atob recording_state
            (audio_stream_start # map (\<lambda>p. audio_chunk (Some p)) [''AQID''] @ [audio_stream_end])
         = (updateStatus (handleAudioStreamStart recording_state)
              ''Audio stream complete. Playing...'' False)
             \<lparr>rawAudioChunks := rawAudioChunks recording_state @ [[1, 2, 3]],
              decoding := decoding recording_state
                @ [header @ concat (rawAudioChunks recording_state) @ concat [[1, 2, 3]]]\<rparr>"
    using receive_utterance [OF chunks, of recording_state] by auto
  have r: "rawAudioChunks run = [[1, 2, 3]]" and d: "length (decoding run) = 1"
    and c: "audioContext run"
    unfolding run_def using utt
    by (simp_all add: updateStatus_def handleAudioStreamStart_def addMessageToHistory_def)
  have f: "rawAudioChunks failed = [[1, 2, 3]]" "chatStatus failed = (''Error playing back audio'', True)"
    "decoding failed = []" "audioContext failed"
    unfolding failed_def using r d c by (simp_all add: play_resume_def Let_def updateStatus_def)
  have ok: "rawAudioChunks (play_resume run 0 True) = []"
    using d by (simp add: play_resume_def Let_def)
  have chunks2: "list_all2 (\<lambda>p c. p \<noteq> [] \<and> base64ToArrayBuffer window_atob p = Some c)
                  [''BAU=''] [[4, 5]]"
    by (simp add: atob_BAU)
  obtain header2 where h2: "length header2 = 44" and
    utt2: "receive window_atob failed
            (audio_stream_start # map (\<lambda>p. audio_chunk (Some p)) [''BAU=''] @ [audio_stream_end])
         = (updateStatus (handleAudioStreamStart failed)
              ''Audio stream complete. Playing...'' False)
             \<lparr>rawAudioChunks := rawAudioChunks failed @ [[4, 5]],
              decoding := decoding failed
                @ [header2 @ concat (rawAudioChunks failed) @ concat [[4, 5]]]\<rparr>"
    using receive_utterance [OF chunks2, of failed] f by auto
  have later: "map (drop 44) (decoding (receive window_atob failed
      [audio_stream_start, audio_chunk (Some ''BAU=''), audio_stream_end])) = [[1, 2, 3, 4, 5]]"
    using utt2 h2 f by simp
  show ?thesis
    unfolding run_def [symmetric] failed_def [symmetric]
    using f(1,2) ok later by simp
qed

text \<open>
  C6 as the specification states it fails: a chunk that is in the buffer when the start
  marker arrives is still there afterwards, and the utterance assembled after the marker
  begins with it.
\<close>

theorem stream_start_keeps_leftover:
  "rawAudioChunks (receive window_atob recording_state [audio_chunk (Some ''Bw=='')]) = [[7]]
   \<and> rawAudioChunks (receive window_atob recording_state
        [audio_chunk (Some ''Bw==''), audio_stream_start]) = [[7]]
   \<and> map (drop 44) (decoding (receive window_atob recording_state
        [audio_chunk (Some ''Bw==''), audio_stream_start, audio_chunk (Some ''AQID''),
         audio_stream_end])) = [[7, 1, 2, 3]]"
proof -
  define left where "left = receive window_atob recording_state [audio_chunk (Some ''Bw=='')]"
  have left: "left = recording_state\<lparr>rawAudioChunks := [[7]]\<rparr>"
    unfolding left_def by (simp add: onmessage_chunk atob_Bw queueChunk_def)
  then have l: "rawAudioChunks left = [[7]]" "audioContext left" "decoding left = []"
    by simp_all
  have s: "rawAudioChunks (receive window_atob left [audio_stream_start]) = [[7]]"
    using l by (simp add: onmessage_start handleAudioStreamStart_def addMessageToHistory_def
        updateStatus_def)
  have chunks: "list_all2 (\<lambda>p c. p \<noteq> [] \<and> base64ToArrayBuffer window_atob p = Some c)
                  [''AQID''] [[1, 2, 3]]"
    by (simp add: atob_AQID)
  obtain header where h: "length header = 44" and
    utt: "receive window_atob left
            (audio_stream_start # map (\<lambda>p. audio_chunk (Some p)) [''AQID''] @ [audio_stream_end])
         = (updateStatus (handleAudioStreamStart left) ''Audio stream complete. Playing...'' False)
             \<lparr>rawAudioChunks := rawAudioChunks left @ [[1, 2, 3]],
              decoding := decoding left @ [header @ concat (rawAudioChunks left) @ concat [[1, 2, 3]]]\<rparr>"
    using receive_utterance [OF chunks, of left] l by auto
  have u: "map (drop 44) (decoding (receive window_atob left
        [audio_stream_start, audio_chunk (Some ''AQID''), audio_stream_end])) = [[7, 1, 2, 3]]"
    using utt h l by simp
  have split: "receive window_atob recording_state (audio_chunk (Some ''Bw=='') # ds)
      = receive window_atob left ds" for ds
    by (simp add: left_def)
  show ?thesis
    unfolding split using l(1) s u by (simp add: left_def [symmetric])
qed

text \<open>
  C6, as the code has it. The start marker sets the status line and appends the
  placeholder entry to the transcript, and changes nothing else: the buffer is as it
  was. The buffer is emptied when the player is started (with a recording) or stopped
  and after a successful playback, and the utterance assembled after the marker holds
  what the buffer held at the marker, followed by the chunks received after it.
\<close>

theorem stream_start_keeps_buffer:
  "onmessage atob s audio_stream_start
     = s\<lparr>chatStatus := (''Receiving audio stream...'', False),
         chatHistory := remove_initial (chatHistory s) @ [Bubble Assistant ''...'']\<rparr>
   \<and> rawAudioChunks (onmessage atob s audio_stream_start) = rawAudioChunks s
   \<and> rawAudioChunks (start s) = []
   \<and> rawAudioChunks (stop s) = []
   \<and> (k < length (decoding s) \<longrightarrow> rawAudioChunks (play_resume s k True) = [])
   \<and> (list_all2 (\<lambda>p c. p \<noteq> [] \<and> base64ToArrayBuffer atob p = Some c) ps cs
        \<and> audioContext s \<and> rawAudioChunks s @ cs \<noteq> [] \<longrightarrow>
       (\<exists>header. length header = 44
          \<and> decoding (receive atob s
               (audio_stream_start # map (\<lambda>p. audio_chunk (Some p)) ps @ [audio_stream_end]))
             = decoding s @ [header @ concat (rawAudioChunks s) @ concat cs]))"
proof (intro conjI impI)
  show "onmessage atob s audio_stream_start
     = s\<lparr>chatStatus := (''Receiving audio stream...'', False),
         chatHistory := remove_initial (chatHistory s) @ [Bubble Assistant ''...'']\<rparr>"
    by (simp add: onmessage_start handleAudioStreamStart_def addMessageToHistory_def
        updateStatus_def)
  show "rawAudioChunks (onmessage atob s audio_stream_start) = rawAudioChunks s"
    by (simp add: onmessage_start handleAudioStreamStart_def addMessageToHistory_def
        updateStatus_def)
  show "rawAudioChunks (start s) = []" by (simp add: start_def)
  show "rawAudioChunks (stop s) = []" by (simp add: stop_def)
  show "rawAudioChunks (play_resume s k True) = []" if "k < length (decoding s)"
    using that by (simp add: play_resume_def Let_def)
  show "\<exists>header. length header = 44
          \<and> decoding (receive atob s
               (audio_stream_start # map (\<lambda>p. audio_chunk (Some p)) ps @ [audio_stream_end]))
             = decoding s @ [header @ concat (rawAudioChunks s) @ concat cs]"
    if "list_all2 (\<lambda>p c. p \<noteq> [] \<and> base64ToArrayBuffer atob p = Some c) ps cs
        \<and> audioContext s \<and> rawAudioChunks s @ cs \<noteq> []"
  proof -
    have chunks: "list_all2 (\<lambda>p c. p \<noteq> [] \<and> base64ToArrayBuffer atob p = Some c) ps cs"
      and ctx: "audioContext s" and some: "rawAudioChunks s @ cs \<noteq> []"
      using that by blast+
    obtain header where h: "length header = 44"
      and utt: "receive atob s (audio_stream_start # map (\<lambda>p. audio_chunk (Some p)) ps
                                  @ [audio_stream_end])
         = (updateStatus (handleAudioStreamStart s) ''Audio stream complete. Playing...'' False)
             \<lparr>rawAudioChunks := rawAudioChunks s @ cs,
              decoding := decoding s @ [header @ concat (rawAudioChunks s) @ concat cs]\<rparr>"
      using receive_utterance [OF chunks ctx some] by auto
    have "decoding (receive atob s (audio_stream_start # map (\<lambda>p. audio_chunk (Some p)) ps
                                  @ [audio_stream_end]))
        = decoding s @ [header @ concat (rawAudioChunks s) @ concat cs]"
      unfolding utt by simp
    with h show ?thesis by blast
  qed
qed

theorem stream_start_keeps_buffer_witness:
  "rawAudioChunks (onmessage window_atob (recording_state\<lparr>rawAudioChunks := [[7]]\<rparr>)
      audio_stream_start) = [[7]]
   \<and> chatHistory (onmessage window_atob (recording_state\<lparr>rawAudioChunks := [[7]]\<rparr>)
      audio_stream_start) = [Bubble Assistant ''...'']
   \<and> list_all2 (\<lambda>p c. p \<noteq> [] \<and> base64ToArrayBuffer window_atob p = Some c) [''AQID''] [[1, 2, 3]]
   \<and> audioContext (recording_state\<lparr>rawAudioChunks := [[7]]\<rparr>)
   \<and> rawAudioChunks (recording_state\<lparr>rawAudioChunks := [[7]]\<rparr>) @ [[1, 2, 3]] \<noteq> []
   \<and> (\<exists>header. length header = 44
          \<and> decoding (receive window_atob (recording_state\<lparr>rawAudioChunks := [[7]]\<rparr>)
               (audio_stream_start # map (\<lambda>p. audio_chunk (Some p)) [''AQID''] @ [audio_stream_end]))
             = [header @ [7, 1, 2, 3]])"
proof -
  define s0 where "s0 = recording_state\<lparr>rawAudioChunks := [[7]]\<rparr>"
  have s0: "rawAudioChunks s0 = [[7]]" "audioContext s0" "decoding s0 = []"
    "chatHistory s0 = [Initial ''Awaiting audio input...'']"
    by (simp_all add: s0_def recording_state_def)
  have chunks: "list_all2 (\<lambda>p c. p \<noteq> [] \<and> base64ToArrayBuffer window_atob p = Some c)
                  [''AQID''] [[1, 2, 3]]"
    by (simp add: atob_AQID)
  have some: "rawAudioChunks s0 @ [[1, 2, 3]] \<noteq> []" by simp
  note T = stream_start_keeps_buffer [of window_atob s0 0 "[''AQID'']" "[[1, 2, 3]]"]
  have a: "rawAudioChunks (onmessage window_atob s0 audio_stream_start) = [[7]]"
    using T s0(1) by simp
  have b: "chatHistory (onmessage window_atob s0 audio_stream_start) = [Bubble Assistant ''...'']"
    using T [THEN conjunct1] s0(4) by simp
  have "\<exists>header. length header = 44
          \<and> decoding (receive window_atob s0
               (audio_stream_start # map (\<lambda>p. audio_chunk (Some p)) [''AQID''] @ [audio_stream_end]))
             = decoding s0 @ [header @ concat (rawAudioChunks s0) @ concat [[1, 2, 3]]]"
    using T chunks s0(2) some by blast
  then have c: "\<exists>header. length header = 44
          \<and> decoding (receive window_atob s0
               (audio_stream_start # map (\<lambda>p. audio_chunk (Some p)) [''AQID''] @ [audio_stream_end]))
             = [header @ [7, 1, 2, 3]]"
    unfolding s0(1,3) by simp
  show ?thesis
    unfolding s0_def [symmetric]
    by (intro conjI) (fact a b chunks s0(2) some c)+
qed

text \<open>
  C10. A chunk message with a payload appends the decoded bytes to the Utterance Buffer in
  every state, whether a start marker has arrived or not, and changes nothing else:
  nothing is handed to the decoder. The bytes stay in the buffer, and the container of
  the next utterance holds them before the chunks of that utterance.
\<close>

theorem orphan_chunk_buffered:
  assumes "p \<noteq> []" and "base64ToArrayBuffer atob p = Some c"
  shows "onmessage atob s (audio_chunk (Some p)) = s\<lparr>rawAudioChunks := rawAudioChunks s @ [c]\<rparr>
     \<and> decoding (onmessage atob s (audio_chunk (Some p))) = decoding s
     \<and> playing (onmessage atob s (audio_chunk (Some p))) = playing s
     \<and> (audioContext s
          \<and> list_all2 (\<lambda>p c. p \<noteq> [] \<and> base64ToArrayBuffer atob p = Some c) ps cs \<longrightarrow>
         (\<exists>header. length header = 44
            \<and> decoding (receive atob s
                 (audio_chunk (Some p) # audio_stream_start
                    # map (\<lambda>p. audio_chunk (Some p)) ps @ [audio_stream_end]))
               = decoding s @ [header @ concat (rawAudioChunks s) @ c @ concat cs]))"
proof (intro conjI impI)
  define s1 where "s1 = s\<lparr>rawAudioChunks := rawAudioChunks s @ [c]\<rparr>"
  show chunk: "onmessage atob s (audio_chunk (Some p)) = s\<lparr>rawAudioChunks := rawAudioChunks s @ [c]\<rparr>"
    using assms by (simp add: onmessage_chunk queueChunk_def)
  show "decoding (onmessage atob s (audio_chunk (Some p))) = decoding s"
    unfolding chunk by simp
  show "playing (onmessage atob s (audio_chunk (Some p))) = playing s"
    unfolding chunk by simp
  show "\<exists>header. length header = 44
            \<and> decoding (receive atob s
                 (audio_chunk (Some p) # audio_stream_start
                    # map (\<lambda>p. audio_chunk (Some p)) ps @ [audio_stream_end]))
               = decoding s @ [header @ concat (rawAudioChunks s) @ c @ concat cs]"
    if "audioContext s \<and> list_all2 (\<lambda>p c. p \<noteq> [] \<and> base64ToArrayBuffer atob p = Some c) ps cs"
  proof -
    have chunks: "list_all2 (\<lambda>p c. p \<noteq> [] \<and> base64ToArrayBuffer atob p = Some c) ps cs"
      and ctx: "audioContext s1" and some: "rawAudioChunks s1 @ cs \<noteq> []"
      using that by (simp_all add: s1_def)
    obtain header where h: "length header = 44"
      and utt: "receive atob s1 (audio_stream_start # map (\<lambda>p. audio_chunk (Some p)) ps
                                  @ [audio_stream_end])
         = (updateStatus (handleAudioStreamStart s1) ''Audio stream complete. Playing...'' False)
             \<lparr>rawAudioChunks := rawAudioChunks s1 @ cs,
              decoding := decoding s1 @ [header @ concat (rawAudioChunks s1) @ concat cs]\<rparr>"
      using receive_utterance [OF chunks ctx some] by auto
    have "receive atob s (audio_chunk (Some p) # audio_stream_start
                    # map (\<lambda>p. audio_chunk (Some p)) ps @ [audio_stream_end])
        = receive atob s1 (audio_stream_start # map (\<lambda>p. audio_chunk (Some p)) ps
                                  @ [audio_stream_end])"
      unfolding s1_def chunk [symmetric] by simp
    then have "decoding (receive atob s (audio_chunk (Some p) # audio_stream_start
                    # map (\<lambda>p. audio_chunk (Some p)) ps @ [audio_stream_end]))
        = decoding s @ [header @ concat (rawAudioChunks s) @ c @ concat cs]"
      unfolding utt by (simp add: s1_def)
    with h show ?thesis by blast
  qed
qed

theorem orphan_chunk_buffered_witness:
  "''Bw=='' \<noteq> [] \<and> base64ToArrayBuffer window_atob ''Bw=='' = Some [7]
   \<and> audioContext recording_state
   \<and> list_all2 (\<lambda>p c. p \<noteq> [] \<and> base64ToArrayBuffer window_atob p = Some c) [''AQID''] [[1, 2, 3]]
   \<and> onmessage window_atob recording_state (audio_chunk (Some ''Bw==''))
       = recording_state\<lparr>rawAudioChunks := [[7]]\<rparr>
   \<and> (\<exists>header. length header = 44
          \<and> decoding (receive window_atob recording_state
               (audio_chunk (Some ''Bw=='') # audio_stream_start
                  # map (\<lambda>p. audio_chunk (Some p)) [''AQID''] @ [audio_stream_end]))
             = [header @ [7, 1, 2, 3]])"
proof -
  have n: "''Bw=='' \<noteq> []" by simp
  have chunks: "list_all2 (\<lambda>p c. p \<noteq> [] \<and> base64ToArrayBuffer window_atob p = Some c)
                  [''AQID''] [[1, 2, 3]]"
    by (simp add: atob_AQID)
  note T = orphan_chunk_buffered [OF n atob_Bw, of recording_state "[''AQID'']" "[[1, 2, 3]]"]
  have a: "onmessage window_atob recording_state (audio_chunk (Some ''Bw==''))
       = recording_state\<lparr>rawAudioChunks := [[7]]\<rparr>"
    using T [THEN conjunct1] by simp
  have "\<exists>header. length header = 44
          \<and> decoding (receive window_atob recording_state
               (audio_chunk (Some ''Bw=='') # audio_stream_start
                  # map (\<lambda>p. audio_chunk (Some p)) [''AQID''] @ [audio_stream_end]))
             = decoding recording_state
                 @ [header @ concat (rawAudioChunks recording_state) @ [7] @ concat [[1, 2, 3]]]"
    using T chunks recording_state_simps(2) by blast
  then have b: "\<exists>header. length header = 44
          \<and> decoding (receive window_atob recording_state
               (audio_chunk (Some ''Bw=='') # audio_stream_start
                  # map (\<lambda>p. audio_chunk (Some p)) [''AQID''] @ [audio_stream_end]))
             = [header @ [7, 1, 2, 3]]"
    by simp
  show ?thesis
    by (intro conjI) (fact n atob_Bw recording_state_simps(2) chunks a b)+
qed

section \<open>The capture callback and the stop sequence\<close>

text \<open>
  C7. When recording has been stopped or the websocket is not open, the capture callback
  leaves the page as it is and sends nothing; a frame is sent only while recording is
  active and the websocket is open.
\<close>

theorem onaudioprocess_guarded:
  "(\<not> isRecording s \<or> readyState s \<noteq> OPEN \<longrightarrow> onaudioprocess A s pcmData = s)
   \<and> (sent (onaudioprocess A s pcmData) \<noteq> sent s \<longrightarrow> isRecording s \<and> readyState s = OPEN)
   \<and> (onaudioprocess A s pcmData \<noteq> s \<longrightarrow> isRecording s \<and> readyState s = OPEN)"
  by (auto simp: onaudioprocess_def)

theorem onaudioprocess_guarded_witness:
  "\<not> isRecording (stopStreaming recording_state)
   \<and> onaudioprocess exact (stopStreaming recording_state) [Fin 1, Fin 0] = stopStreaming recording_state
   \<and> readyState (recording_state\<lparr>readyState := CLOSING\<rparr>) \<noteq> OPEN
   \<and> onaudioprocess exact (recording_state\<lparr>readyState := CLOSING\<rparr>) [Fin 1, Fin 0]
       = recording_state\<lparr>readyState := CLOSING\<rparr>
   \<and> sent (onaudioprocess exact recording_state [Fin 1, Fin 0, Fin (- 1)]) \<noteq> sent recording_state
   \<and> isRecording recording_state \<and> readyState recording_state = OPEN"
proof -
  have stopped: "\<not> isRecording (stopStreaming recording_state)"
    by (simp add: stopStreaming_def recording_state_def Let_def updateRecordButton_def
        stopChatVisualizer_def)
  have closing: "readyState (recording_state\<lparr>readyState := CLOSING\<rparr>) \<noteq> OPEN" by simp
  have a: "onaudioprocess exact (stopStreaming recording_state) [Fin 1, Fin 0]
      = stopStreaming recording_state"
    using onaudioprocess_guarded [of "stopStreaming recording_state" exact "[Fin 1, Fin 0]"] stopped
    by blast
  have b: "onaudioprocess exact (recording_state\<lparr>readyState := CLOSING\<rparr>) [Fin 1, Fin 0]
       = recording_state\<lparr>readyState := CLOSING\<rparr>"
    using onaudioprocess_guarded [of "recording_state\<lparr>readyState := CLOSING\<rparr>" exact "[Fin 1, Fin 0]"]
      closing by blast
  have "resampleBuffer exact [Fin 1, Fin 0, Fin (- 1)] 48000 16000 \<noteq> None"
    by (simp add: resampleBuffer_def exact_def Math_round_def Let_def)
  then have c: "sent (onaudioprocess exact recording_state [Fin 1, Fin 0, Fin (- 1)])
      \<noteq> sent recording_state"
    by (auto simp: onaudioprocess_def recording_state_def TARGET_SAMPLE_RATE_def)
  show ?thesis
    by (intro conjI) (fact stopped a closing b c recording_state_simps(5) recording_state_simps(6))+
qed

text \<open>
  C8. A message of type \<open>error\<close> that arrives while recording runs the stop sequence
  (recording ends, the capture graph and the microphone are released, the visualizer
  stops, the button shows processing and the settle timer is set) and leaves the
  message of the remote side in the status line, marked as an error.
\<close>

theorem remote_error_stops:
  assumes "isRecording s" and "mtype m = ''error''" and "mmessage m = Some t"
  shows "onmessage atob s (Json m) = stopStreaming (updateStatus s (''Server Error: '' @ t) True)
     \<and> \<not> isRecording (onmessage atob s (Json m))
     \<and> \<not> scriptNode (onmessage atob s (Json m))
     \<and> \<not> mediaStreamSource (onmessage atob s (Json m))
     \<and> (mediaStreamSource s \<longrightarrow> \<not> tracks (onmessage atob s (Json m)))
     \<and> \<not> visualizer (onmessage atob s (Json m))
     \<and> recordButton (onmessage atob s (Json m)) = Processing
     \<and> timers (onmessage atob s (Json m)) = Suc (timers s)
     \<and> chatStatus (onmessage atob s (Json m)) = (''Server Error: '' @ t, True)
     \<and> rawAudioChunks (onmessage atob s (Json m)) = rawAudioChunks s"
  using assms
  by (simp add: onmessage_def stopStreaming_def updateStatus_def updateRecordButton_def
      stopChatVisualizer_def Let_def)

theorem remote_error_stops_witness:
  "isRecording recording_state
   \<and> mtype \<lparr>mtype = ''error'', mtext = None, audio_data = None, mmessage = Some ''quota exceeded''\<rparr>
       = ''error''
   \<and> mmessage \<lparr>mtype = ''error'', mtext = None, audio_data = None, mmessage = Some ''quota exceeded''\<rparr>
       = Some ''quota exceeded''
   \<and> \<not> isRecording (onmessage window_atob recording_state
         (Json \<lparr>mtype = ''error'', mtext = None, audio_data = None,
                mmessage = Some ''quota exceeded''\<rparr>))
   \<and> chatStatus (onmessage window_atob recording_state
         (Json \<lparr>mtype = ''error'', mtext = None, audio_data = None,
                mmessage = Some ''quota exceeded''\<rparr>)) = (''Server Error: quota exceeded'', True)
   \<and> recordButton (onmessage window_atob recording_state
         (Json \<lparr>mtype = ''error'', mtext = None, audio_data = None,
                mmessage = Some ''quota exceeded''\<rparr>)) = Processing"
proof -
  let ?m = "\<lparr>mtype = ''error'', mtext = None, audio_data = None, mmessage = Some ''quota exceeded''\<rparr>"
  have h1: "isRecording recording_state" by simp
  have h2: "mtype ?m = ''error''" by simp
  have h3: "mmessage ?m = Some ''quota exceeded''" by simp
  note T = remote_error_stops [OF h1 h2 h3, of window_atob]
  have a: "\<not> isRecording (onmessage window_atob recording_state (Json ?m))"
    using T by blast
  have "chatStatus (onmessage window_atob recording_state (Json ?m))
      = (''Server Error: '' @ ''quota exceeded'', True)"
    using T by blast
  then have b: "chatStatus (onmessage window_atob recording_state (Json ?m))
      = (''Server Error: quota exceeded'', True)"
    by simp
  have c: "recordButton (onmessage window_atob recording_state (Json ?m)) = Processing"
    using T by blast
  show ?thesis
    by (intro conjI) (fact h1 h2 h3 a b c)+
qed

end
